theory Spec2Isabelle
  imports Complex_Main
begin

section \<open>Tensors, Python errors and the torch primitives the sources call\<close>

text \<open>
  The two source files (\<^verbatim>\<open>cudants/registration/affine.py\<close> and
  \<^verbatim>\<open>cudants/utils/imageutils.py\<close>) compute on torch tensors. A tensor is modelled by
  its shape and its element function: \<open>elem t idx\<close> is the entry at the index tuple
  \<open>idx\<close>, meaningful for the index tuples within \<open>shape t\<close>. Entries are real numbers:
  rounding of float32 arithmetic is not modelled. Every exception the Python can raise on
  the modelled paths is a value of \<open>error\<close>, and a function that may raise returns
  \<open>error + 'a\<close> with \<open>Inl\<close> for the exception.
\<close>

datatype error =
    IndexError
  | ValueError
  | NotImplementedError
  | RuntimeError
  | ZeroDivisionError
  | OverflowError
  | UnboundLocalError
  | ConfigurationError

definition bind_err :: "error + 'a \<Rightarrow> ('a \<Rightarrow> error + 'b) \<Rightarrow> error + 'b" where
  "bind_err m f = (case m of Inl e \<Rightarrow> Inl e | Inr x \<Rightarrow> f x)"

record 'a tensor =
  shape :: "nat list"
  elem :: "nat list \<Rightarrow> 'a"

text \<open>All index tuples of a shape, in row-major order.\<close>

fun indices :: "nat list \<Rightarrow> nat list list" where
  "indices [] = [[]]"
| "indices (n # ns) = concat (map (\<lambda>i. map ((#) i) (indices ns)) [0..<n])"

definition all_zero :: "real tensor \<Rightarrow> bool" where
  "all_zero t \<longleftrightarrow> list_all (\<lambda>idx. elem t idx = 0) (indices (shape t))"

text \<open>\<^verbatim>\<open>torch.tensor([x0, x1, ...])\<close>: a rank-1 tensor from a list.\<close>

definition tensor1 :: "'a list \<Rightarrow> 'a tensor" where
  "tensor1 xs = \<lparr>shape = [length xs], elem = (\<lambda>idx. xs ! (idx ! 0))\<rparr>"

text \<open>\<^verbatim>\<open>t[None]\<close> and \<^verbatim>\<open>t.unsqueeze(0)\<close>: a new leading axis of extent 1.\<close>

definition unsqueeze0 :: "'a tensor \<Rightarrow> 'a tensor" where
  "unsqueeze0 t = \<lparr>shape = 1 # shape t, elem = (\<lambda>idx. elem t (tl idx))\<rparr>"

text \<open>
  \<^verbatim>\<open>t.permute(*perm)\<close>: axis \<open>i\<close> of the result is axis \<open>perm ! i\<close> of \<open>t\<close>. torch raises
  a RuntimeError unless \<open>perm\<close> is a permutation of the axes of \<open>t\<close>.
\<close>

definition pos_of :: "nat \<Rightarrow> nat list \<Rightarrow> nat" where
  "pos_of j perm = length (takeWhile (\<lambda>p. p \<noteq> j) perm)"

definition permute :: "'a tensor \<Rightarrow> nat list \<Rightarrow> error + 'a tensor" where
  "permute t perm =
     (if sort perm = [0..<length (shape t)]
      then Inr \<lparr>shape = map (\<lambda>p. shape t ! p) perm,
                elem = (\<lambda>idx. elem t (map (\<lambda>j. idx ! pos_of j perm) [0..<length perm]))\<rparr>
      else Inl RuntimeError)"

text \<open>
  \<^verbatim>\<open>torch.cat(ts, dim=d)\<close>: the tensors must agree in rank and in every extent but the
  one of axis \<open>d\<close>; otherwise torch raises a RuntimeError.
\<close>

definition cat2 :: "nat \<Rightarrow> 'a tensor \<Rightarrow> 'a tensor \<Rightarrow> error + 'a tensor" where
  "cat2 d a b =
     (if length (shape a) = length (shape b) \<and> d < length (shape a)
         \<and> (shape a)[d := 0] = (shape b)[d := 0]
      then Inr \<lparr>shape = (shape a)[d := shape a ! d + shape b ! d],
                elem = (\<lambda>idx. if idx ! d < shape a ! d then elem a idx
                               else elem b (idx[d := idx ! d - shape a ! d]))\<rparr>
      else Inl RuntimeError)"

fun cat :: "nat \<Rightarrow> 'a tensor list \<Rightarrow> error + 'a tensor" where
  "cat d [] = Inl RuntimeError"
| "cat d [t] = (if d < length (shape t) then Inr t else Inl IndexError)"
| "cat d (t # u # ts) = bind_err (cat2 d t u) (\<lambda>tu. cat d (tu # ts))"

text \<open>
  Reading a zero-padded tensor at a possibly out-of-range position: the padding of
  \<^verbatim>\<open>F.conv2d\<close>/\<^verbatim>\<open>F.conv3d\<close> and the \<^verbatim>\<open>padding_mode='zeros'\<close> default of
  \<^verbatim>\<open>F.grid_sample\<close>.
\<close>

definition in_bounds :: "nat list \<Rightarrow> int list \<Rightarrow> bool" where
  "in_bounds shp idx \<longleftrightarrow>
     length idx = length shp \<and> list_all (\<lambda>(n, i). 0 \<le> i \<and> i < int n) (zip shp idx)"

definition padded_read :: "real tensor \<Rightarrow> int list \<Rightarrow> real" where
  "padded_read t idx = (if in_bounds (shape t) idx then elem t (map nat idx) else 0)"

text \<open>
  \<^verbatim>\<open>F.conv2d(inp, ker, padding=pad)\<close> and \<^verbatim>\<open>F.conv3d(inp, ker, padding=pad)\<close> with the
  defaults the source leaves in place (no bias, stride 1, dilation 1, one group): the
  input is \<open>[B, C_in] @ sp\<close>, the kernel \<open>[C_out, C_in] @ ks\<close>, and the output extent of
  an axis is \<open>s + 2 * p - k + 1\<close>. torch raises a RuntimeError when the channel counts
  differ or a padded extent is smaller than the kernel's.
\<close>

definition conv_nd :: "real tensor \<Rightarrow> real tensor \<Rightarrow> nat list \<Rightarrow> error + real tensor" where
  "conv_nd inp ker pad =
     (let sp = drop 2 (shape inp); ks = drop 2 (shape ker) in
      if length (shape inp) < 3 \<or> length (shape ker) \<noteq> length (shape inp)
         \<or> length pad \<noteq> length sp \<or> shape inp ! 1 \<noteq> shape ker ! 1
         \<or> list_ex (\<lambda>(s, p, k). s + 2 * p < k) (zip sp (zip pad ks))
      then Inl RuntimeError
      else Inr \<lparr>shape = [shape inp ! 0, shape ker ! 0]
                         @ map (\<lambda>(s, p, k). s + 2 * p - k + 1) (zip sp (zip pad ks)),
                elem = (\<lambda>idx. \<Sum>ci\<leftarrow>[0..<shape inp ! 1]. \<Sum>kk\<leftarrow>indices ks.
                          elem ker ([idx ! 1, ci] @ kk)
                          * padded_read inp ([int (idx ! 0), int ci]
                              @ map (\<lambda>(out, k, p). int out + int k - int p)
                                    (zip (drop 2 idx) (zip kk pad))))\<rparr>)"

section \<open>imageutils.py: image_gradient\<close>

text \<open>
  \<^verbatim>\<open>image_gradient_singlechannel\<close>: \<open>dims = len(image.shape) - 2\<close>; for \<open>dims == 2\<close> the
  kernel \<^verbatim>\<open>FloatTensor([[-1.0, 0, 1]])[None, None]\<close> has shape \<open>[1, 1, 1, 3]\<close>, for
  \<open>dims == 3\<close> the kernel \<^verbatim>\<open>FloatTensor([[[-1.0, 0, 1]]])[None, None]\<close> has shape
  \<open>[1, 1, 1, 1, 3]\<close>; the other gradients convolve with permuted kernels, and the
  gradients are concatenated along the channel axis. Any other \<open>dims\<close> raises
  ValueError.
\<close>

definition image_gradient_singlechannel :: "real tensor \<Rightarrow> error + real tensor" where
  "image_gradient_singlechannel img =
     (let dims = int (length (shape img)) - 2 in
      if dims = 2 then
        (let k = unsqueeze0 (unsqueeze0 (unsqueeze0 (tensor1 [-1, 0, 1]))) in
         bind_err (conv_nd img k [0, 1]) (\<lambda>gradx.
         bind_err (permute k [0, 1, 3, 2]) (\<lambda>ky.
         bind_err (conv_nd img ky [1, 0]) (\<lambda>grady.
         cat 1 [gradx, grady]))))
      else if dims = 3 then
        (let k = unsqueeze0 (unsqueeze0 (unsqueeze0 (unsqueeze0 (tensor1 [-1, 0, 1])))) in
         bind_err (conv_nd img k [0, 0, 1]) (\<lambda>gradx.
         bind_err (permute k [0, 1, 2, 4, 3]) (\<lambda>ky.
         bind_err (conv_nd img ky [0, 1, 0]) (\<lambda>grady.
         bind_err (permute k [0, 1, 4, 2, 3]) (\<lambda>kz.
         bind_err (conv_nd img kz [1, 0, 0]) (\<lambda>gradz.
         cat 1 [gradx, grady, gradz]))))))
      else Inl ValueError)"

text \<open>
  \<^verbatim>\<open>image_gradient\<close>: \<open>c = image.shape[1]\<close> (an IndexError on a tensor with fewer than
  two axes); one channel goes to the single-channel routine, anything else raises
  NotImplementedError.
\<close>

definition image_gradient :: "real tensor \<Rightarrow> error + real tensor" where
  "image_gradient img =
     (if length (shape img) < 2 then Inl IndexError
      else let c = shape img ! 1 in
        if c = 1 then image_gradient_singlechannel img
        else Inl NotImplementedError)"

section \<open>imageutils.py: scaling_and_squaring\<close>

text \<open>
  Multilinear sampling. A sample position \<open>p\<close> along one axis reads the two neighbouring
  entries \<open>\<lfloor>p\<rfloor>\<close> and \<open>\<lfloor>p\<rfloor> + 1\<close> with weights \<open>1 - (p - \<lfloor>p\<rfloor>)\<close> and \<open>p - \<lfloor>p\<rfloor>\<close>; over
  several axes the reads are all combinations and the weights multiply.
\<close>

definition axis_taps :: "real \<Rightarrow> (int \<times> real) list" where
  "axis_taps p = (let i = \<lfloor>p\<rfloor> in [(i, 1 - (p - of_int i)), (i + 1, p - of_int i)])"

fun taps :: "real list \<Rightarrow> (int list \<times> real) list" where
  "taps [] = [([], 1)]"
| "taps (p # ps) =
     concat (map (\<lambda>(i, w). map (\<lambda>(js, v). (i # js, w * v)) (taps ps)) (axis_taps p))"

text \<open>
  \<^verbatim>\<open>F.grid_sample(inp, grid, align_corners=True)\<close> with the defaults the source leaves
  in place (\<^verbatim>\<open>mode='bilinear'\<close>, \<^verbatim>\<open>padding_mode='zeros'\<close>): \<open>inp\<close> is \<open>[B, C] @ sp\<close> with
  two or three spatial axes, \<open>grid\<close> is \<open>[B] @ out @ [d]\<close> and the result
  \<open>[B, C] @ out\<close>. Component \<open>0\<close> of a grid vector is the coordinate along the last
  spatial axis. With corner alignment the normalized coordinate \<open>x\<close> of an axis of
  extent \<open>s\<close> is the position \<open>(x + 1) / 2 * (s - 1)\<close>. Any other combination of shapes
  is a RuntimeError.
\<close>

definition unnormalize :: "nat \<Rightarrow> real \<Rightarrow> real" where
  "unnormalize s x = (x + 1) / 2 * (real s - 1)"

definition grid_sample :: "real tensor \<Rightarrow> real tensor \<Rightarrow> error + real tensor" where
  "grid_sample inp grid =
     (let sp = drop 2 (shape inp); d = length sp in
      if (d \<noteq> 2 \<and> d \<noteq> 3) \<or> length (shape grid) \<noteq> d + 2
         \<or> shape grid ! 0 \<noteq> shape inp ! 0 \<or> last (shape grid) \<noteq> d
      then Inl RuntimeError
      else Inr \<lparr>shape = take 2 (shape inp) @ butlast (tl (shape grid)),
                elem = (\<lambda>idx.
                  let b = idx ! 0; c = idx ! 1; out = drop 2 idx;
                      pos = map (\<lambda>a. unnormalize (sp ! a) (elem grid ((b # out) @ [d - 1 - a])))
                                [0..<d]
                  in \<Sum>(js, w)\<leftarrow>taps pos. w * padded_read inp ([int b, int c] @ js))\<rparr>)"

text \<open>
  \<^verbatim>\<open>a + b\<close> on tensors of one shape, and \<^verbatim>\<open>s * t\<close> with a Python float \<open>s\<close>. Broadcasting
  between tensors of different shapes is not modelled: it is reported as the
  RuntimeError torch raises for shapes that do not fit.
\<close>

definition add_t :: "real tensor \<Rightarrow> real tensor \<Rightarrow> error + real tensor" where
  "add_t a b =
     (if shape a = shape b
      then Inr \<lparr>shape = shape a, elem = (\<lambda>idx. elem a idx + elem b idx)\<rparr>
      else Inl RuntimeError)"

definition smul :: "real \<Rightarrow> real tensor \<Rightarrow> real tensor" where
  "smul s t = \<lparr>shape = shape t, elem = (\<lambda>idx. s * elem t idx)\<rparr>"

text \<open>
  \<^verbatim>\<open>1.0/2**n\<close> for a step count \<open>n\<close>: \<open>2**n\<close> is an exact Python integer, and the
  division converts it to a float first, which raises OverflowError from \<open>2**1024\<close> on.
\<close>

definition scale_factor :: "nat \<Rightarrow> error + real" where
  "scale_factor n = (if 1024 \<le> n then Inl OverflowError else Inr (1 / 2 ^ n))"

text \<open>
  The squaring loop \<^verbatim>\<open>for i in range(n)\<close>. Both branches of the source run the same
  body and differ in the two permutations only (\<open>to_img\<close> moves the vector axis to the
  channel position, \<open>to_field\<close> moves it back), so the loop is written once:
  \<^verbatim>\<open>vimg = v.permute(to_img)\<close>;
  \<^verbatim>\<open>v = v + F.grid_sample(vimg, v + grid, align_corners=True).permute(to_field)\<close>.
\<close>

definition squaring_step ::
  "nat list \<Rightarrow> nat list \<Rightarrow> real tensor \<Rightarrow> real tensor \<Rightarrow> error + real tensor" where
  "squaring_step to_img to_field grid v =
     bind_err (permute v to_img) (\<lambda>vimg.
     bind_err (add_t v grid) (\<lambda>vg.
     bind_err (grid_sample vimg vg) (\<lambda>s.
     bind_err (permute s to_field) (\<lambda>sf.
     add_t v sf))))"

fun squaring_loop ::
  "nat list \<Rightarrow> nat list \<Rightarrow> real tensor \<Rightarrow> nat \<Rightarrow> real tensor \<Rightarrow> error + real tensor" where
  "squaring_loop to_img to_field grid 0 v = Inr v"
| "squaring_loop to_img to_field grid (Suc i) v =
     bind_err (squaring_step to_img to_field grid v) (squaring_loop to_img to_field grid i)"

text \<open>
  \<^verbatim>\<open>scaling_and_squaring(u, grid, n)\<close>: \<open>dims = u.shape[-1]\<close> (an IndexError on a tensor
  without axes); \<open>v = (1.0/2**n) * u\<close>, then \<open>n\<close> squaring steps; ValueError for any
  \<open>dims\<close> other than 2 and 3.
\<close>

definition scaling_and_squaring :: "real tensor \<Rightarrow> real tensor \<Rightarrow> nat \<Rightarrow> error + real tensor" where
  "scaling_and_squaring u grid n =
     (if shape u = [] then Inl IndexError
      else let dims = last (shape u) in
        if dims = 3 then
          bind_err (scale_factor n) (\<lambda>s.
          squaring_loop [0, 4, 1, 2, 3] [0, 2, 3, 4, 1] grid n (smul s u))
        else if dims = 2 then
          bind_err (scale_factor n) (\<lambda>s.
          squaring_loop [0, 3, 1, 2] [0, 2, 3, 1] grid n (smul s u))
        else Inl ValueError)"

section \<open>imageutils.py: downsample\<close>

text \<open>
  \<^verbatim>\<open>F.interpolate(inp, size=size, mode=mode, align_corners=True)\<close>. The result has the
  batch and channel extents of \<open>inp\<close> and the spatial extents \<open>size\<close>; torch refuses
  an input without spatial axes, a \<open>size\<close> of another length than the spatial axes, and
  an extent that is not positive. The interpolated values depend on the mode string and
  are a parameter \<open>vals\<close> of the model (\<open>vals mode inp size idx\<close> is the entry at \<open>idx\<close>).
\<close>

type_synonym interp_fn = "string \<Rightarrow> real tensor \<Rightarrow> nat list \<Rightarrow> nat list \<Rightarrow> real"

definition interpolate :: "interp_fn \<Rightarrow> real tensor \<Rightarrow> int list \<Rightarrow> string \<Rightarrow> error + real tensor" where
  "interpolate vals inp size_arg mode =
     (if length (shape inp) < 3 then Inl NotImplementedError
      else if length size_arg \<noteq> length (shape inp) - 2 then Inl ValueError
      else if list_ex (\<lambda>s. s \<le> 0) size_arg then Inl RuntimeError
      else Inr \<lparr>shape = take 2 (shape inp) @ map nat size_arg,
                elem = vals mode inp (map nat size_arg)\<rparr>)"

text \<open>
  \<^verbatim>\<open>sigma = [0.5 * orig_size[i] / size[i] for i in range(len(orig_size))]\<close>: reading
  \<open>size[i]\<close> past its end raises IndexError, an extent \<open>0\<close> raises ZeroDivisionError.
\<close>

fun infer_sigma :: "nat list \<Rightarrow> int list \<Rightarrow> error + real list" where
  "infer_sigma [] size_arg = Inr []"
| "infer_sigma (s # orig_size) [] = Inl IndexError"
| "infer_sigma (s # orig_size) (t # size_arg) =
     (if t = 0 then Inl ZeroDivisionError
      else bind_err (infer_sigma orig_size size_arg) (\<lambda>rest. Inr (0.5 * real s / real_of_int t # rest)))"

text \<open>
  \<^verbatim>\<open>downsample(image, size, mode, sigma=None, gaussians=None)\<close>. \<^verbatim>\<open>gaussian_1d\<close> and
  \<^verbatim>\<open>separable_filtering\<close> are imported from \<^verbatim>\<open>cudants.losses.cc\<close>, which is not among the
  sources: they are parameters of the model. The image is smoothed first and
  interpolated to \<open>size\<close> afterwards.
\<close>

definition downsample ::
  "(real \<Rightarrow> real \<Rightarrow> real tensor) \<Rightarrow> (real tensor \<Rightarrow> real tensor list \<Rightarrow> error + real tensor) \<Rightarrow>
   interp_fn \<Rightarrow> real tensor \<Rightarrow> int list \<Rightarrow> string \<Rightarrow> real list option \<Rightarrow>
   real tensor list option \<Rightarrow> error + real tensor" where
  "downsample gaussian_1d separable_filtering vals img size_arg mode sigma gaussians =
     bind_err
       (case gaussians of
          Some gs \<Rightarrow> Inr gs
        | None \<Rightarrow>
            bind_err (case sigma of
                        Some sg \<Rightarrow> Inr sg
                      | None \<Rightarrow> infer_sigma (drop 2 (shape img)) size_arg)
              (\<lambda>sg. Inr (map (\<lambda>s. gaussian_1d s 2) sg)))
       (\<lambda>gs.
     bind_err (separable_filtering img gs) (\<lambda>image_smooth.
     interpolate vals image_smooth size_arg mode))"

section \<open>affine.py: Python floats for the loss values\<close>

text \<open>
  \<^verbatim>\<open>prev_loss = np.inf\<close> and \<^verbatim>\<open>cur_loss = loss.item()\<close> are Python floats: a finite
  value, an infinity or NaN. Subtraction and comparison follow IEEE 754 on the special
  values; a division whose divisor is zero raises ZeroDivisionError, whatever the
  dividend. Finite values are real numbers here: rounding and overflow of finite
  operations are not modelled.
\<close>

datatype pyfloat = Fin real | PInf | NInf | NaN

fun py_sub :: "pyfloat \<Rightarrow> pyfloat \<Rightarrow> pyfloat" where
  "py_sub NaN b = NaN"
| "py_sub a NaN = NaN"
| "py_sub (Fin a) (Fin b) = Fin (a - b)"
| "py_sub (Fin a) PInf = NInf"
| "py_sub (Fin a) NInf = PInf"
| "py_sub PInf PInf = NaN"
| "py_sub PInf b = PInf"
| "py_sub NInf NInf = NaN"
| "py_sub NInf b = NInf"

fun py_truediv :: "pyfloat \<Rightarrow> pyfloat \<Rightarrow> error + pyfloat" where
  "py_truediv a (Fin b) =
     (if b = 0 then Inl ZeroDivisionError
      else case a of
          Fin x \<Rightarrow> Inr (Fin (x / b))
        | PInf \<Rightarrow> Inr (if 0 < b then PInf else NInf)
        | NInf \<Rightarrow> Inr (if 0 < b then NInf else PInf)
        | NaN \<Rightarrow> Inr NaN)"
| "py_truediv a NaN = Inr NaN"
| "py_truediv (Fin x) b = Inr (Fin 0)"
| "py_truediv a b = Inr NaN"

fun py_lt :: "pyfloat \<Rightarrow> pyfloat \<Rightarrow> bool" where
  "py_lt NaN b = False"
| "py_lt a NaN = False"
| "py_lt (Fin a) (Fin b) = (a < b)"
| "py_lt a PInf = (a \<noteq> PInf)"
| "py_lt NInf b = (b \<noteq> NInf)"
| "py_lt a b = False"

section \<open>affine.py: the registration object\<close>

text \<open>
  \<^verbatim>\<open>BatchedImages\<close> (\<^verbatim>\<open>cudants.io.image\<close>, not among the sources) is the container the
  registration reads: calling it gives the image arrays \<open>[N, C] @ spatial\<close>, and it
  has the batch count \<^verbatim>\<open>size()\<close>, the spatial dimensionality \<^verbatim>\<open>dims\<close>, the matrices
  of \<^verbatim>\<open>get_torch2phy()\<close> and \<^verbatim>\<open>get_phy2torch()\<close> and the string \<^verbatim>\<open>interpolate_mode\<close>.
\<close>

record batched_images =
  arrays :: "real tensor"
  batch_count :: nat
  image_dims :: nat
  torch2phy :: "real tensor"
  phy2torch :: "real tensor"
  interpolate_mode :: string

text \<open>
  The fields of \<^verbatim>\<open>self\<close>. \<open>affine\<close> is the \<^verbatim>\<open>nn.Parameter\<close>, the only tensor handed to
  the optimizer; \<open>optimizer\<close> is the state of the torch optimizer, of a type \<open>'o\<close> the
  model leaves open; \<open>loss_fn\<close> is the loss the abstract base class builds from
  \<^verbatim>\<open>loss_type\<close> or \<^verbatim>\<open>custom_loss\<close>, with its \<^verbatim>\<open>.item()\<close> value as result.
\<close>

record 'o registration =
  scales :: "int list"
  iterations :: "int list"
  fixed_images :: batched_images
  moving_images :: batched_images
  loss_fn :: "real tensor \<Rightarrow> real tensor \<Rightarrow> pyfloat"
  tolerance :: pyfloat
  max_tolerance_iters :: int
  tolerance_mode :: string
  dims :: nat
  affine :: "real tensor"
  row :: "real tensor"
  optimizer :: 'o

text \<open>
  What lies outside the two source files and is not modelled in full: the values
  \<^verbatim>\<open>F.interpolate\<close> computes, the constructors of the torch optimizers \<^verbatim>\<open>SGD\<close> and
  \<^verbatim>\<open>Adam\<close>, the constant \<^verbatim>\<open>MIN_IMG_SIZE\<close> of \<^verbatim>\<open>cudants.utils.globals\<close>, and
  \<^verbatim>\<open>loss.backward()\<close> followed by \<^verbatim>\<open>self.optimizer.step()\<close>. The last is one function
  \<open>autograd_step\<close>: from the registration object, the homogeneous physical coordinates
  and the downsampled fixed image of the scale it gives the next optimizer state and
  the new entries of \<open>affine\<close>. The step writes the parameter in place, so the shape
  of \<open>affine\<close> stays what it was.
\<close>

record 'o env =
  interp_values :: interp_fn
  sgd :: "real \<Rightarrow> real \<Rightarrow> 'o"
  adam :: "real \<Rightarrow> 'o"
  min_img_size :: int
  autograd_step :: "'o registration \<Rightarrow> real tensor \<Rightarrow> real tensor \<Rightarrow> 'o \<times> (nat list \<Rightarrow> real)"

text \<open>
  Modelled from the spec: \<^verbatim>\<open>AbstractRegistration.__init__\<close>, which
  \<^verbatim>\<open>AffineRegistration.__init__\<close> calls first through \<^verbatim>\<open>super().__init__\<close> and which
  lives in \<^verbatim>\<open>cudants/registration/abstract.py\<close>, missing from the sources. The spec
  (sections 3 and 7): the lengths of the factors and of the iteration budgets are
  equal, and mismatched schedule lengths are a configuration error raised eagerly at
  construction. Storing the arguments in \<^verbatim>\<open>self\<close> is done by \<open>init\<close> below.
\<close>

definition abstract_init :: "int list \<Rightarrow> int list \<Rightarrow> error + unit" where
  "abstract_init scales_arg iterations_arg =
     (if length scales_arg \<noteq> length iterations_arg then Inl ConfigurationError else Inr ())"

text \<open>
  \<^verbatim>\<open>torch.eye(dims, dims+1).unsqueeze(0).repeat(n, 1, 1)\<close>, and the row
  \<^verbatim>\<open>torch.zeros((n, 1, dims+1))\<close> with \<^verbatim>\<open>row[:, 0, -1] = 1.0\<close>.
\<close>

definition eye_batch :: "nat \<Rightarrow> nat \<Rightarrow> real tensor" where
  "eye_batch n d = \<lparr>shape = [n, d, d + 1], elem = (\<lambda>idx. if idx ! 1 = idx ! 2 then 1 else 0)\<rparr>"

definition homogeneous_row :: "nat \<Rightarrow> nat \<Rightarrow> real tensor" where
  "homogeneous_row n d = \<lparr>shape = [n, 1, d + 1], elem = (\<lambda>idx. if idx ! 2 = d then 1 else 0)\<rparr>"

text \<open>
  \<^verbatim>\<open>AffineRegistration.__init__\<close>. The hyperparameters of the optimizers other than the
  learning rate and the momentum, the kernel types of the built-in losses and the
  device are not modelled. An optimizer name other than \<^verbatim>\<open>'SGD'\<close> and \<^verbatim>\<open>'Adam'\<close>
  raises ValueError.
\<close>

definition init ::
  "'o env \<Rightarrow> int list \<Rightarrow> int list \<Rightarrow> batched_images \<Rightarrow> batched_images \<Rightarrow>
   (real tensor \<Rightarrow> real tensor \<Rightarrow> pyfloat) \<Rightarrow> string \<Rightarrow> real \<Rightarrow> real \<Rightarrow>
   pyfloat \<Rightarrow> int \<Rightarrow> string \<Rightarrow> real tensor option \<Rightarrow> error + 'o registration" where
  "init e scales_arg iterations_arg fixed moving loss optimizer_name optimizer_lr
        optimizer_momentum tol max_iters mode init_rigid =
     bind_err (abstract_init scales_arg iterations_arg) (\<lambda>_.
       let d = image_dims moving;
           a = (case init_rigid of
                  Some m \<Rightarrow> m
                | None \<Rightarrow> eye_batch (batch_count fixed) d);
           self = (\<lambda>opt. \<lparr>scales = scales_arg, iterations = iterations_arg,
                           fixed_images = fixed, moving_images = moving, loss_fn = loss,
                           tolerance = tol, max_tolerance_iters = max_iters,
                           tolerance_mode = mode, dims = d, affine = a,
                           row = homogeneous_row (batch_count fixed) d, optimizer = opt\<rparr>)
       in if optimizer_name = ''SGD'' then Inr (self (sgd e optimizer_lr optimizer_momentum))
          else if optimizer_name = ''Adam'' then Inr (self (adam e optimizer_lr))
          else Inl ValueError)"

text \<open>\<^verbatim>\<open>get_affine_matrix\<close>: \<^verbatim>\<open>torch.cat([self.affine, self.row], dim=1)\<close>.\<close>

definition get_affine_matrix :: "'o registration \<Rightarrow> error + real tensor" where
  "get_affine_matrix self = cat 1 [affine self, row self]"

section \<open>affine.py: optimize\<close>

text \<open>
  \<^verbatim>\<open>int(s / scale)\<close> for an extent \<open>s\<close> and an integer factor: the true division raises
  ZeroDivisionError for the factor 0, and \<^verbatim>\<open>int\<close> truncates the quotient towards zero.
  (The float quotient of two integers below \<open>2^53\<close> truncates to the exact integer
  quotient.)
\<close>

definition trunc_div :: "nat \<Rightarrow> int \<Rightarrow> int" where
  "trunc_div s k = (if k < 0 then - (int s div (- k)) else int s div k)"

text \<open>\<^verbatim>\<open>size_down = [max(int(s / scale), MIN_IMG_SIZE) for s in fixed_size]\<close>.\<close>

definition size_down :: "int \<Rightarrow> int \<Rightarrow> nat list \<Rightarrow> error + int list" where
  "size_down min_size scale fixed_size =
     (if fixed_size \<noteq> [] \<and> scale = 0 then Inl ZeroDivisionError
      else Inr (map (\<lambda>s. max (trunc_div s scale) min_size) fixed_size))"

text \<open>
  \<^verbatim>\<open>F.affine_grid(theta, size, align_corners=True)\<close>: \<open>theta\<close> is \<open>[N, d, d + 1]\<close>, \<open>size\<close>
  is \<open>[N, C] @ sp\<close> with two or three spatial axes, the result is \<open>[N] @ sp @ [d]\<close>. The
  base coordinate of position \<open>i\<close> on an axis of extent \<open>s\<close> runs from \<open>-1\<close> to \<open>1\<close>
  (and is \<open>0\<close> on an axis of extent 1); component \<open>j\<close> of the base vector belongs to the
  spatial axis \<open>d - 1 - j\<close>, and the result is \<open>theta\<close> applied to the base vector
  extended by 1.
\<close>

definition base_coord :: "nat \<Rightarrow> nat \<Rightarrow> real" where
  "base_coord s i = (if s \<le> 1 then 0 else 2 * real i / (real s - 1) - 1)"

definition affine_grid :: "real tensor \<Rightarrow> nat list \<Rightarrow> error + real tensor" where
  "affine_grid theta size_arg =
     (let d = length size_arg - 2; sp = drop 2 size_arg in
      if (length size_arg \<noteq> 4 \<and> length size_arg \<noteq> 5) \<or> shape theta \<noteq> [size_arg ! 0, d, d + 1]
      then Inl RuntimeError
      else Inr \<lparr>shape = (size_arg ! 0) # sp @ [d],
                elem = (\<lambda>idx.
                  let n = idx ! 0; t = idx ! (d + 1) in
                  (\<Sum>j\<leftarrow>[0..<d]. elem theta [n, t, j]
                        * base_coord (sp ! (d - 1 - j)) (idx ! (1 + (d - 1 - j))))
                  + elem theta [n, t, d])\<rparr>)"

text \<open>
  \<^verbatim>\<open>torch.einsum('ntd, n...d->n...t', m, x)\<close>: for every batch item and every position
  of the axes in between, the matrix \<open>m[n]\<close> applied to the vector along the last axis
  of \<open>x\<close>. Extents that do not fit raise a RuntimeError (broadcasting of extents 1 is
  not modelled).
\<close>

definition einsum_ntd :: "real tensor \<Rightarrow> real tensor \<Rightarrow> error + real tensor" where
  "einsum_ntd m x =
     (if length (shape m) \<noteq> 3 \<or> length (shape x) < 2 \<or> shape m ! 0 \<noteq> shape x ! 0
         \<or> shape m ! 2 \<noteq> last (shape x)
      then Inl RuntimeError
      else Inr \<lparr>shape = butlast (shape x) @ [shape m ! 1],
                elem = (\<lambda>idx. \<Sum>d\<leftarrow>[0..<shape m ! 2].
                          elem m [idx ! 0, last idx, d] * elem x (butlast idx @ [d]))\<rparr>)"

text \<open>
  \<^verbatim>\<open>torch.cat([c, torch.ones(list(c.shape[:-1]) + [1])], dim=-1)\<close> appends the
  homogeneous coordinate 1, and \<^verbatim>\<open>c[..., :-1]\<close> drops the last coordinate.
\<close>

definition ones :: "nat list \<Rightarrow> real tensor" where
  "ones shp = \<lparr>shape = shp, elem = (\<lambda>idx. 1)\<rparr>"

definition homogenize :: "real tensor \<Rightarrow> error + real tensor" where
  "homogenize c =
     (if shape c = [] then Inl IndexError
      else cat (length (shape c) - 1) [c, ones (butlast (shape c) @ [1])])"

definition drop_last_coord :: "real tensor \<Rightarrow> real tensor" where
  "drop_last_coord c = \<lparr>shape = butlast (shape c) @ [last (shape c) - 1], elem = elem c\<rparr>"

text \<open>
  The convergence check at the end of an iteration. It gives the new counter and
  whether the loop breaks. In \<^verbatim>\<open>'atol'\<close> mode the improvement is \<open>prev_loss - cur_loss\<close>,
  in \<^verbatim>\<open>'rtol'\<close> mode \<open>(prev_loss - cur_loss)/(prev_loss)\<close>; any other mode string makes
  no check at all.
\<close>

definition convergence_check ::
  "string \<Rightarrow> pyfloat \<Rightarrow> int \<Rightarrow> pyfloat \<Rightarrow> pyfloat \<Rightarrow> int \<Rightarrow> error + int \<times> bool" where
  "convergence_check mode tol max_iters prev cur ctr =
     (if mode = ''atol'' then
        (if py_lt (py_sub prev cur) tol then Inr (ctr + 1, max_iters < ctr + 1)
         else Inr (0, False))
      else if mode = ''rtol'' then
        bind_err (py_truediv (py_sub prev cur) prev) (\<lambda>q.
          if py_lt q tol then Inr (ctr + 1, max_iters < ctr + 1)
          else Inr (0, False))
      else Inr (ctr, False))"

text \<open>
  The local variables of \<^verbatim>\<open>optimize\<close> and \<^verbatim>\<open>self\<close>. \<open>moved_image\<close> is unbound
  (\<open>None\<close>) until the first iteration has run. The last two fields are not variables of
  the source: they record what the run did, one entry per iteration (the matrix read
  by \<^verbatim>\<open>get_affine_matrix\<close>, the coordinates and the image of the \<^verbatim>\<open>F.grid_sample\<close>
  call, the losses and the counter around the convergence check, whether the loop
  broke there) and one entry per scale (the factor, \<open>size_down\<close>, the downsampled
  fixed image, the grid of \<^verbatim>\<open>F.affine_grid\<close>, the iterations of the scale).
\<close>

record iter_log =
  il_affinemat :: "real tensor"
  il_coords :: "real tensor"
  il_moved :: "real tensor"
  il_prev_loss :: pyfloat
  il_cur_loss :: pyfloat
  il_ctr_before :: int
  il_ctr_after :: int
  il_broke :: bool

record scale_log =
  sl_scale :: int
  sl_budget :: int
  sl_size_down :: "int list"
  sl_fixed_image_down :: "real tensor"
  sl_grid :: "real tensor"
  sl_iters :: "iter_log list"

record 'o state =
  self :: "'o registration"
  tol_ctr :: int
  prev_loss :: pyfloat
  moved_image :: "real tensor option"
  transformed_images :: "real tensor list"
  iter_logs :: "iter_log list"
  scale_logs :: "scale_log list"

text \<open>
  One pass through the body of \<^verbatim>\<open>for i in pbar\<close>; the boolean says whether the pass
  ended in \<^verbatim>\<open>break\<close>, which skips \<^verbatim>\<open>prev_loss = cur_loss\<close>.
\<close>

definition iteration ::
  "'o env \<Rightarrow> real tensor \<Rightarrow> real tensor \<Rightarrow> 'o state \<Rightarrow> error + 'o state \<times> bool" where
  "iteration e fixed_image_down fixed_image_coords_homo st =
     bind_err (get_affine_matrix (self st)) (\<lambda>affinemat.
     bind_err (einsum_ntd affinemat fixed_image_coords_homo) (\<lambda>coords1.
     bind_err (einsum_ntd (phy2torch (moving_images (self st))) coords1) (\<lambda>coords2.
     bind_err (grid_sample (arrays (moving_images (self st))) (drop_last_coord coords2)) (\<lambda>moved.
       let cur_loss = loss_fn (self st) moved fixed_image_down;
           stepped = autograd_step e (self st) fixed_image_coords_homo fixed_image_down;
           self' = (self st)\<lparr>affine := \<lparr>shape = shape (affine (self st)), elem = snd stepped\<rparr>,
                             optimizer := fst stepped\<rparr>
       in bind_err (convergence_check (tolerance_mode (self st)) (tolerance (self st))
                      (max_tolerance_iters (self st)) (prev_loss st) cur_loss (tol_ctr st))
            (\<lambda>(ctr, brk).
              Inr (st\<lparr>self := self', moved_image := Some moved, tol_ctr := ctr,
                      prev_loss := (if brk then prev_loss st else cur_loss),
                      iter_logs := iter_logs st
                        @ [\<lparr>il_affinemat = affinemat, il_coords = drop_last_coord coords2,
                            il_moved = moved, il_prev_loss = prev_loss st,
                            il_cur_loss = cur_loss, il_ctr_before = tol_ctr st,
                            il_ctr_after = ctr, il_broke = brk\<rparr>]\<rparr>,
                   brk))))))"

text \<open>\<^verbatim>\<open>for i in range(iters)\<close> with its \<^verbatim>\<open>break\<close>; the first argument counts the passes left.\<close>

fun iterate :: "'o env \<Rightarrow> real tensor \<Rightarrow> real tensor \<Rightarrow> nat \<Rightarrow> 'o state \<Rightarrow> error + 'o state" where
  "iterate e fixed_image_down homo 0 st = Inr st"
| "iterate e fixed_image_down homo (Suc k) st =
     bind_err (iteration e fixed_image_down homo st) (\<lambda>(st', brk).
       if brk then Inr st' else iterate e fixed_image_down homo k st')"

text \<open>
  The body of \<^verbatim>\<open>for scale, iters in zip(self.scales, self.iterations)\<close>:
  the counter and the previous loss are reset, the fixed image is brought to
  \<open>size_down\<close> by \<^verbatim>\<open>F.interpolate\<close>, its grid is made homogeneous and taken to physical
  space, the iterations run, and with \<^verbatim>\<open>save_transformed\<close> the last moved image is
  appended (UnboundLocalError when no iteration has run so far).
\<close>

definition run_scale :: "'o env \<Rightarrow> bool \<Rightarrow> int \<times> int \<Rightarrow> 'o state \<Rightarrow> error + 'o state" where
  "run_scale e save_transformed si st =
     (let scale = fst si; iters = snd si;
          fixed = fixed_images (self st);
          fixed_size = drop 2 (shape (arrays fixed));
          init_grid = eye_batch (batch_count fixed) (dims (self st)) in
      bind_err (size_down (min_img_size e) scale fixed_size) (\<lambda>sz.
      bind_err (interpolate (interp_values e) (arrays fixed) sz (interpolate_mode fixed)) (\<lambda>fixed_image_down.
      bind_err (affine_grid init_grid (shape fixed_image_down)) (\<lambda>fixed_image_coords.
      bind_err (homogenize fixed_image_coords) (\<lambda>homo0.
      bind_err (einsum_ntd (torch2phy fixed) homo0) (\<lambda>homo.
      bind_err (iterate e fixed_image_down homo (nat iters)
                  (st\<lparr>tol_ctr := 0, prev_loss := PInf, iter_logs := []\<rparr>)) (\<lambda>st1.
        let st2 = st1\<lparr>scale_logs := scale_logs st1
                        @ [\<lparr>sl_scale = scale, sl_budget = iters, sl_size_down = sz,
                            sl_fixed_image_down = fixed_image_down,
                            sl_grid = fixed_image_coords, sl_iters = iter_logs st1\<rparr>]\<rparr>
        in if save_transformed then
             (case moved_image st2 of
                None \<Rightarrow> Inl UnboundLocalError
              | Some m \<Rightarrow> Inr (st2\<lparr>transformed_images := transformed_images st2 @ [m]\<rparr>))
           else Inr st2)))))))"

fun run_scales :: "'o env \<Rightarrow> bool \<Rightarrow> (int \<times> int) list \<Rightarrow> 'o state \<Rightarrow> error + 'o state" where
  "run_scales e save_transformed [] st = Inr st"
| "run_scales e save_transformed (si # sis) st =
     bind_err (run_scale e save_transformed si st) (run_scales e save_transformed sis)"

text \<open>
  What \<^verbatim>\<open>optimize\<close> returns: the list \<^verbatim>\<open>transformed_images\<close> with
  \<^verbatim>\<open>save_transformed\<close>, and \<^verbatim>\<open>None\<close> (the source has no other \<^verbatim>\<open>return\<close>) without.
\<close>

datatype py_return = PyNone | PyList "real tensor list"

definition initial_state :: "'o registration \<Rightarrow> 'o state" where
  "initial_state reg =
     \<lparr>self = reg, tol_ctr = 0, prev_loss = PInf, moved_image = None,
      transformed_images = [], iter_logs = [], scale_logs = []\<rparr>"

definition optimize :: "'o env \<Rightarrow> 'o registration \<Rightarrow> bool \<Rightarrow> error + py_return \<times> 'o state" where
  "optimize e reg save_transformed =
     bind_err (run_scales e save_transformed (zip (scales reg) (iterations reg)) (initial_state reg))
       (\<lambda>st. Inr (if save_transformed then PyList (transformed_images st) else PyNone, st))"

section \<open>Notions the properties are stated with\<close>

text \<open>
  Two tensors are the same when their shapes agree and their entries agree at every
  index tuple of the shape.
\<close>

definition same_tensor :: "real tensor \<Rightarrow> real tensor \<Rightarrow> bool" where
  "same_tensor a b \<longleftrightarrow>
     shape a = shape b \<and> list_all (\<lambda>idx. elem a idx = elem b idx) (indices (shape a))"

definition zeros :: "nat list \<Rightarrow> real tensor" where
  "zeros shp = \<lparr>shape = shp, elem = (\<lambda>idx. 0)\<rparr>"

text \<open>The product of two batches of matrices, batch item by batch item.\<close>

definition bmm :: "real tensor \<Rightarrow> real tensor \<Rightarrow> real tensor" where
  "bmm a b =
     \<lparr>shape = [shape a ! 0, shape a ! 1, shape b ! 2],
      elem = (\<lambda>idx. \<Sum>k\<leftarrow>[0..<shape a ! 2]. elem a [idx ! 0, idx ! 1, k] * elem b [idx ! 0, k, idx ! 2])\<rparr>"

text \<open>
  The coordinate pipeline in the words of the spec (section 4.3): promote the grid to
  homogeneous coordinates, apply the fixed-to-physical transform, apply the current
  affine estimate, apply the moving physical-to-normalized transform, drop the
  homogeneous coordinate. \<open>composed_pipeline\<close> applies the one matrix
  \<open>moving_p2t \<cdot> affine \<cdot> fixed_t2p\<close> instead.
\<close>

definition coordinate_pipeline ::
  "real tensor \<Rightarrow> real tensor \<Rightarrow> real tensor \<Rightarrow> real tensor \<Rightarrow> error + real tensor" where
  "coordinate_pipeline grid fixed_t2p affinemat moving_p2t =
     bind_err (homogenize grid) (\<lambda>homo.
     bind_err (einsum_ntd fixed_t2p homo) (\<lambda>physical.
     bind_err (einsum_ntd affinemat physical) (\<lambda>mapped.
     bind_err (einsum_ntd moving_p2t mapped) (\<lambda>normalized.
     Inr (drop_last_coord normalized)))))"

definition composed_pipeline ::
  "real tensor \<Rightarrow> real tensor \<Rightarrow> real tensor \<Rightarrow> real tensor \<Rightarrow> error + real tensor" where
  "composed_pipeline grid fixed_t2p affinemat moving_p2t =
     bind_err (homogenize grid) (\<lambda>homo.
     bind_err (einsum_ntd (bmm moving_p2t (bmm affinemat fixed_t2p)) homo) (\<lambda>normalized.
     Inr (drop_last_coord normalized)))"

text \<open>
  The convergence policy in the words of the spec (section 4.4): the improvement is
  below the tolerance when \<open>P - L < tolerance\<close>, in \<^verbatim>\<open>rtol\<close> mode when
  \<open>(P - L) / P < tolerance\<close>. A run of iterations follows the policy from a counter and
  a previous loss when every iteration starts from the counter and the loss the one
  before left, increments the counter if the improvement is below the tolerance and
  resets it to 0 if not, stops if and only if it incremented the counter and the
  counter then exceeds \<open>max_tolerance_iters\<close>, and no iteration follows one that
  stopped.
\<close>

definition improvement_below :: "string \<Rightarrow> pyfloat \<Rightarrow> pyfloat \<Rightarrow> pyfloat \<Rightarrow> bool" where
  "improvement_below mode tol prev cur =
     (if mode = ''rtol''
      then (case py_truediv (py_sub prev cur) prev of Inl err \<Rightarrow> False | Inr q \<Rightarrow> py_lt q tol)
      else py_lt (py_sub prev cur) tol)"

fun follows_policy :: "string \<Rightarrow> pyfloat \<Rightarrow> int \<Rightarrow> int \<Rightarrow> pyfloat \<Rightarrow> iter_log list \<Rightarrow> bool" where
  "follows_policy mode tol max_iters ctr prev [] = True"
| "follows_policy mode tol max_iters ctr prev (il # ils) =
     (il_ctr_before il = ctr \<and> il_prev_loss il = prev
      \<and> il_ctr_after il = (if improvement_below mode tol prev (il_cur_loss il) then ctr + 1 else 0)
      \<and> il_broke il = (improvement_below mode tol prev (il_cur_loss il) \<and> max_iters < il_ctr_after il)
      \<and> (if il_broke il then ils = []
         else follows_policy mode tol max_iters (il_ctr_after il) (il_cur_loss il) ils))"

text \<open>
  A batch of \<open>n\<close> homogeneous matrices for \<open>d\<close> spatial axes: shape \<open>[n, d + 1, d + 1]\<close>
  and the last row \<open>[0, ..., 0, 1]\<close> in every batch item.
\<close>

definition homogeneous_matrix :: "nat \<Rightarrow> nat \<Rightarrow> real tensor \<Rightarrow> bool" where
  "homogeneous_matrix n d m \<longleftrightarrow>
     shape m = [n, d + 1, d + 1]
     \<and> list_all (\<lambda>b. list_all (\<lambda>j. elem m [b, d, j] = (if j = d then 1 else 0)) [0..<d + 1]) [0..<n]"

text \<open>
  The shapes \<^verbatim>\<open>optimize\<close> relies on: two or three spatial axes, images of that
  dimensionality with the container's batch count, square homogeneous transforms, the
  parameter \<open>[n, d, d + 1]\<close> and the row \<open>[n, 1, d + 1]\<close>; a positive
  \<^verbatim>\<open>MIN_IMG_SIZE\<close> and no factor 0.
\<close>

definition well_shaped :: "'o env \<Rightarrow> 'o registration \<Rightarrow> bool" where
  "well_shaped e reg \<longleftrightarrow>
     (let n = batch_count (fixed_images reg); d = dims reg in
      (d = 2 \<or> d = 3) \<and> 0 < min_img_size e
      \<and> length (shape (arrays (fixed_images reg))) = d + 2
      \<and> shape (arrays (fixed_images reg)) ! 0 = n
      \<and> length (shape (arrays (moving_images reg))) = d + 2
      \<and> shape (arrays (moving_images reg)) ! 0 = n
      \<and> shape (torch2phy (fixed_images reg)) = [n, d + 1, d + 1]
      \<and> shape (phy2torch (moving_images reg)) = [n, d + 1, d + 1]
      \<and> shape (affine reg) = [n, d, d + 1]
      \<and> shape (row reg) = [n, 1, d + 1]
      \<and> list_all (\<lambda>s. s \<noteq> 0) (scales reg))"

text \<open>
  Two registration objects have the same configuration when they differ at most in
  the entries of the parameter \<open>affine\<close> and in the optimizer state.
\<close>

definition same_configuration :: "'o registration \<Rightarrow> 'o registration \<Rightarrow> bool" where
  "same_configuration a b \<longleftrightarrow>
     scales a = scales b \<and> iterations a = iterations b
     \<and> fixed_images a = fixed_images b \<and> moving_images a = moving_images b
     \<and> loss_fn a = loss_fn b \<and> tolerance a = tolerance b
     \<and> max_tolerance_iters a = max_tolerance_iters b \<and> tolerance_mode a = tolerance_mode b
     \<and> dims a = dims b \<and> row a = row b \<and> shape (affine a) = shape (affine b)"

text \<open>
  The identity sampling grid of a field of shape \<open>[B, H, W, 2]\<close> or \<open>[B, D, H, W, 3]\<close>:
  component \<open>c\<close> of the vector at a position is the base coordinate of that position
  along the spatial axis counted \<open>c\<close> from the last.
\<close>

definition identity_grid :: "nat list \<Rightarrow> real tensor" where
  "identity_grid shp =
     \<lparr>shape = shp,
      elem = (\<lambda>idx. let a = length shp - 2 - last idx in base_coord (shp ! a) (idx ! a))\<rparr>"

section \<open>A small registration to run\<close>

text \<open>
  The values of \<^verbatim>\<open>F.interpolate\<close> in its linear modes with corner alignment: position
  \<open>i\<close> of an output axis of extent \<open>o\<close> reads the input axis of extent \<open>s\<close> at
  \<open>i * (s - 1) / (o - 1)\<close>.
\<close>

definition linear_values :: interp_fn where
  "linear_values mode inp sz idx =
     (let sp = drop 2 (shape inp);
          pos = map (\<lambda>a. if sz ! a \<le> 1 then 0
                          else real (idx ! (2 + a)) * (real (sp ! a) - 1) / (real (sz ! a) - 1))
                    [0..<length sp]
      in \<Sum>(js, w)\<leftarrow>taps pos. w * padded_read inp ([int (idx ! 0), int (idx ! 1)] @ js))"

text \<open>
  One 4 by 4 image with the entry \<open>h + 2 * w\<close> at row \<open>h\<close> and column \<open>w\<close>, whose
  normalized and physical coordinates coincide; an environment with
  \<^verbatim>\<open>MIN_IMG_SIZE = 2\<close> whose optimizer step halves every entry of the parameter; and
  the registration \<^verbatim>\<open>AffineRegistration([4, 1], [5, 2], ...)\<close> of the image with itself,
  with \<^verbatim>\<open>max_tolerance_iters=1\<close>.
\<close>

definition square_eye :: "nat \<Rightarrow> nat \<Rightarrow> real tensor" where
  "square_eye n d = \<lparr>shape = [n, d + 1, d + 1], elem = (\<lambda>idx. if idx ! 1 = idx ! 2 then 1 else 0)\<rparr>"

definition example_images :: batched_images where
  "example_images =
     \<lparr>arrays = \<lparr>shape = [1, 1, 4, 4], elem = (\<lambda>idx. real (idx ! 2) + 2 * real (idx ! 3))\<rparr>,
      batch_count = 1, image_dims = 2, torch2phy = square_eye 1 2, phy2torch = square_eye 1 2,
      interpolate_mode = ''bilinear''\<rparr>"

definition example_env :: "unit env" where
  "example_env =
     \<lparr>interp_values = linear_values, sgd = (\<lambda>lr momentum. ()), adam = (\<lambda>lr. ()),
      min_img_size = 2,
      autograd_step = (\<lambda>reg homo fixed_image_down. ((), \<lambda>idx. elem (affine reg) idx / 2))\<rparr>"

definition example_init ::
  "int list \<Rightarrow> int list \<Rightarrow> (real tensor \<Rightarrow> real tensor \<Rightarrow> pyfloat) \<Rightarrow> string \<Rightarrow> error + unit registration" where
  "example_init scales_arg iterations_arg loss mode =
     init example_env scales_arg iterations_arg example_images example_images loss
       ''SGD'' 0.1 0 (Fin 0.000001) 1 mode None"

definition example_reg :: "(real tensor \<Rightarrow> real tensor \<Rightarrow> pyfloat) \<Rightarrow> string \<Rightarrow> unit registration" where
  "example_reg loss mode =
     \<lparr>scales = [4, 1], iterations = [5, 2], fixed_images = example_images,
      moving_images = example_images, loss_fn = loss, tolerance = Fin 0.000001,
      max_tolerance_iters = 1, tolerance_mode = mode, dims = 2, affine = eye_batch 1 2,
      row = homogeneous_row 1 2, optimizer = ()\<rparr>"

text \<open>
  A separable filter to put in the place of \<^verbatim>\<open>separable_filtering\<close>: one convolution
  per spatial axis with the kernel of that axis, zero padded to keep the extent; and
  the three-tap kernel \<open>[1/4, 1/2, 1/4]\<close> in the place of \<^verbatim>\<open>gaussian_1d\<close>.
\<close>

definition axis_kernel :: "nat \<Rightarrow> nat \<Rightarrow> real tensor \<Rightarrow> real tensor" where
  "axis_kernel d a k =
     \<lparr>shape = [1, 1] @ (replicate d 1)[a := shape k ! 0], elem = (\<lambda>idx. elem k [idx ! (2 + a)])\<rparr>"

fun filter_axes :: "nat \<Rightarrow> real tensor \<Rightarrow> real tensor list \<Rightarrow> error + real tensor" where
  "filter_axes a img [] = Inr img"
| "filter_axes a img (k # ks) =
     bind_err (conv_nd img (axis_kernel (length (shape img) - 2) a k)
                 ((replicate (length (shape img) - 2) 0)[a := (shape k ! 0 - 1) div 2]))
       (\<lambda>smoothed. filter_axes (Suc a) smoothed ks)"

definition three_tap :: "real \<Rightarrow> real \<Rightarrow> real tensor" where
  "three_tap sigma truncated = tensor1 [1 / 4, 1 / 2, 1 / 4]"

text \<open>
  The run of the example registration with the constant loss 1 in \<^verbatim>\<open>atol\<close> mode, and
  the scale log it leaves.
\<close>

definition example_run :: "bool \<Rightarrow> error + py_return \<times> unit state" where
  "example_run save_transformed =
     optimize example_env (example_reg (\<lambda>moved fixed. Fin 1) ''atol'') save_transformed"

definition example_logs :: "scale_log list" where
  "example_logs = scale_logs (snd (projr (example_run False)))"

section \<open>Properties of image_gradient\<close>

lemma image_gradient_multichannel:
  "2 \<le> length (shape img) \<Longrightarrow> 1 < shape img ! 1 \<Longrightarrow> image_gradient img = Inl NotImplementedError"
  by (simp add: image_gradient_def)

lemma image_gradient_planar:
  assumes "shape img = [b, 1, h, w]" "0 < h" "0 < w"
  shows "\<exists>g. image_gradient img = Inr g \<and> shape g = [b, 2, h, w]"
  using assms
  by (simp add: image_gradient_def image_gradient_singlechannel_def conv_nd_def permute_def
      unsqueeze0_def tensor1_def bind_err_def cat2_def Let_def upt_rec)

lemma image_gradient_volumetric:
  assumes "shape img = [b, 1, d, h, w]" "0 < d" "0 < h" "0 < w"
  shows "\<exists>g. image_gradient img = Inr g \<and> shape g = [b, 3, d, h, w]"
  using assms
  by (simp add: image_gradient_def image_gradient_singlechannel_def conv_nd_def permute_def
      unsqueeze0_def tensor1_def bind_err_def cat2_def Let_def upt_rec)

lemma image_gradient_other_dims:
  assumes "shape img = [b, 1] @ sp" "length sp \<noteq> 2" "length sp \<noteq> 3"
  shows "image_gradient img = Inl ValueError"
  using assms
  by (auto simp add: image_gradient_def image_gradient_singlechannel_def Let_def)

lemma length2_cases: "length xs = 2 \<Longrightarrow> \<exists>x y. xs = [x, y]"
  by (cases xs; cases "tl xs") auto

lemma length3_cases: "length xs = 3 \<Longrightarrow> \<exists>x y z. xs = [x, y, z]"
  by (cases xs; cases "tl xs"; cases "tl (tl xs)") auto

text \<open>
  C9. \<^verbatim>\<open>image_gradient\<close> raises NotImplementedError for every input with more than one
  channel. For every single-channel input with two or three spatial axes, none of them
  empty, it returns a tensor with as many channels as spatial axes and the spatial
  shape of the input. For a single-channel input with any other number of spatial
  axes it raises ValueError.
\<close>

theorem image_gradient_contract:
  "(2 \<le> length (shape img) \<and> 1 < shape img ! 1 \<longrightarrow> image_gradient img = Inl NotImplementedError)
   \<and> (shape img = [b, 1] @ sp \<and> (length sp = 2 \<or> length sp = 3) \<and> list_all (\<lambda>s. 0 < s) sp
        \<longrightarrow> (\<exists>g. image_gradient img = Inr g \<and> shape g = [b, length sp] @ sp))
   \<and> (shape img = [b, 1] @ sp \<and> length sp \<noteq> 2 \<and> length sp \<noteq> 3
        \<longrightarrow> image_gradient img = Inl ValueError)"
proof (intro conjI impI)
  assume "2 \<le> length (shape img) \<and> 1 < shape img ! 1"
  then show "image_gradient img = Inl NotImplementedError"
    by (simp add: image_gradient_multichannel)
next
  assume a: "shape img = [b, 1] @ sp \<and> (length sp = 2 \<or> length sp = 3) \<and> list_all (\<lambda>s. 0 < s) sp"
  then consider "length sp = 2" | "length sp = 3" by blast
  then show "\<exists>g. image_gradient img = Inr g \<and> shape g = [b, length sp] @ sp"
  proof cases
    case 1
    then obtain h w where sp: "sp = [h, w]" using length2_cases by blast
    with a image_gradient_planar[of img b h w] show ?thesis by (simp add: numeral_2_eq_2)
  next
    case 2
    then obtain d h w where sp: "sp = [d, h, w]" using length3_cases by blast
    with a image_gradient_volumetric[of img b d h w] show ?thesis by (simp add: numeral_3_eq_3)
  qed
next
  assume "shape img = [b, 1] @ sp \<and> length sp \<noteq> 2 \<and> length sp \<noteq> 3"
  then show "image_gradient img = Inl ValueError"
    by (simp add: image_gradient_other_dims)
qed

theorem image_gradient_contract_witness:
  "image_gradient (zeros [1, 2, 4, 4]) = Inl NotImplementedError
   \<and> (\<exists>g. image_gradient (arrays example_images) = Inr g \<and> shape g = [1, 2, 4, 4])
   \<and> (\<exists>g. image_gradient (zeros [2, 1, 3, 4, 5]) = Inr g \<and> shape g = [2, 3, 3, 4, 5])
   \<and> image_gradient (zeros [1, 1, 7]) = Inl ValueError"
proof -
  have "image_gradient (zeros [1, 2, 4, 4]) = Inl NotImplementedError"
    using image_gradient_contract[of "zeros [1, 2, 4, 4]" 1 "[4, 4]"] by (simp add: zeros_def)
  moreover have "\<exists>g. image_gradient (arrays example_images) = Inr g \<and> shape g = [1, 2, 4, 4]"
    using image_gradient_contract[of "arrays example_images" 1 "[4, 4]"]
    by (simp add: example_images_def numeral_2_eq_2)
  moreover have "\<exists>g. image_gradient (zeros [2, 1, 3, 4, 5]) = Inr g \<and> shape g = [2, 3, 3, 4, 5]"
    using image_gradient_contract[of "zeros [2, 1, 3, 4, 5]" 2 "[3, 4, 5]"]
    by (simp add: zeros_def numeral_3_eq_3)
  moreover have "image_gradient (zeros [1, 1, 7]) = Inl ValueError"
    using image_gradient_contract[of "zeros [1, 1, 7]" 1 "[7]"] by (simp add: zeros_def)
  ultimately show ?thesis by blast
qed

text \<open>
  On the example image, whose entry at row \<open>h\<close> and column \<open>w\<close> is \<open>h + 2 * w\<close>, the
  central differences in the interior are 4 along the columns (channel 0) and 2
  along the rows (channel 1).
\<close>

lemma image_gradient_example_values:
  "elem (projr (image_gradient (arrays example_images))) [0, 0, 1, 1] = 4
   \<and> elem (projr (image_gradient (arrays example_images))) [0, 1, 1, 1] = 2"
  by (simp add: image_gradient_def image_gradient_singlechannel_def conv_nd_def permute_def
      unsqueeze0_def tensor1_def bind_err_def cat2_def Let_def upt_rec example_images_def
      padded_read_def in_bounds_def pos_of_def)

section \<open>Properties of scaling_and_squaring\<close>

lemma indices_iff:
  "idx \<in> set (indices shp) \<longleftrightarrow> length idx = length shp \<and> (\<forall>i<length shp. idx ! i < shp ! i)"
proof (induction shp arbitrary: idx)
  case Nil
  then show ?case by simp
next
  case (Cons n ns)
  show ?case
  proof (cases idx)
    case Nil
    then show ?thesis by auto
  next
    case (Cons i js)
    show ?thesis unfolding Cons
      by (simp add: Cons.IH All_less_Suc2 image_iff) blast
  qed
qed

lemma in_bounds_indices: "in_bounds shp idx \<Longrightarrow> map nat idx \<in> set (indices shp)"
  by (auto simp: in_bounds_def indices_iff list_all_length)

lemma all_zero_iff: "all_zero t \<longleftrightarrow> (\<forall>idx \<in> set (indices (shape t)). elem t idx = 0)"
  by (simp add: all_zero_def list_all_iff)

lemma padded_read_zero: "all_zero t \<Longrightarrow> padded_read t idx = 0"
  by (auto simp: padded_read_def all_zero_iff dest: in_bounds_indices)

lemma sum_list_zero: "(\<And>x. x \<in> set xs \<Longrightarrow> f x = (0::real)) \<Longrightarrow> sum_list (map f xs) = 0"
  by (induction xs) auto

lemma grid_sample_zero: "all_zero inp \<Longrightarrow> grid_sample inp g = Inr r \<Longrightarrow> all_zero r"
  by (auto simp: grid_sample_def Let_def all_zero_iff[of r] padded_read_zero
      split: if_splits intro!: sum_list_zero)

lemma pos_of_nth: "j \<in> set perm \<Longrightarrow> pos_of j perm < length perm \<and> perm ! pos_of j perm = j"
  unfolding pos_of_def
  by (induction perm) auto

lemma permute_zero:
  assumes "all_zero t" "permute t perm = Inr r"
  shows "all_zero r"
proof -
  from assms(2) have srt: "sort perm = [0..<length (shape t)]"
    and r: "r = \<lparr>shape = map (\<lambda>p. shape t ! p) perm,
                elem = (\<lambda>idx. elem t (map (\<lambda>j. idx ! pos_of j perm) [0..<length perm]))\<rparr>"
    by (auto simp: permute_def split: if_splits)
  from srt have len: "length perm = length (shape t)"
    by (metis length_sort length_upt minus_nat.diff_0)
  from srt have mem: "\<And>j. j < length (shape t) \<Longrightarrow> j \<in> set perm"
    by (metis atLeastLessThan_iff set_sort set_upt zero_le)
  show ?thesis
    unfolding all_zero_iff
  proof
    fix idx assume "idx \<in> set (indices (shape r))"
    then have idx: "length idx = length perm"
      "\<And>i. i < length perm \<Longrightarrow> idx ! i < shape t ! (perm ! i)"
      by (auto simp: r indices_iff)
    have "map (\<lambda>j. idx ! pos_of j perm) [0..<length perm] \<in> set (indices (shape t))"
      unfolding indices_iff
    proof (intro conjI allI impI)
      show "length (map (\<lambda>j. idx ! pos_of j perm) [0..<length perm]) = length (shape t)"
        by (simp add: len)
    next
      fix i assume i: "i < length (shape t)"
      from mem[OF i] have "pos_of i perm < length perm" "perm ! pos_of i perm = i"
        by (simp_all add: pos_of_nth)
      with idx(2)[of "pos_of i perm"] i
      show "map (\<lambda>j. idx ! pos_of j perm) [0..<length perm] ! i < shape t ! i"
        by (simp add: len)
    qed
    with assms(1) show "elem r idx = 0"
      by (simp add: r all_zero_iff)
  qed
qed

lemma add_t_zero: "all_zero a \<Longrightarrow> all_zero b \<Longrightarrow> add_t a b = Inr r \<Longrightarrow> all_zero r"
  by (auto simp: add_t_def all_zero_iff split: if_splits)

lemma smul_zero: "all_zero t \<Longrightarrow> all_zero (smul s t)"
  by (simp add: smul_def all_zero_iff)

lemma squaring_step_zero:
  assumes z: "all_zero v" and st: "squaring_step p1 p2 grid v = Inr v'"
  shows "all_zero v'"
proof -
  from st obtain vimg vg s sf where
    a: "permute v p1 = Inr vimg" and b: "add_t v grid = Inr vg"
    and c: "grid_sample vimg vg = Inr s"
    and d: "permute s p2 = Inr sf" and e: "add_t v sf = Inr v'"
    unfolding squaring_step_def bind_err_def by (auto split: sum.splits)
  from permute_zero[OF z a] have "all_zero vimg" .
  from grid_sample_zero[OF this c] have "all_zero s" .
  from permute_zero[OF this d] have "all_zero sf" .
  from add_t_zero[OF z this e] show ?thesis .
qed

lemma squaring_step_volumetric:
  assumes "shape v = [b, d, h, w, 3]" "shape grid = shape v"
  shows "\<exists>v'. squaring_step [0, 4, 1, 2, 3] [0, 2, 3, 4, 1] grid v = Inr v' \<and> shape v' = shape v"
  using assms
  by (simp add: squaring_step_def permute_def add_t_def grid_sample_def bind_err_def Let_def upt_rec)

lemma squaring_step_planar:
  assumes "shape v = [b, h, w, 2]" "shape grid = shape v"
  shows "\<exists>v'. squaring_step [0, 3, 1, 2] [0, 2, 3, 1] grid v = Inr v' \<and> shape v' = shape v"
  using assms
  by (simp add: squaring_step_def permute_def add_t_def grid_sample_def bind_err_def Let_def upt_rec)

lemma squaring_loop_zero:
  assumes step: "\<And>v. shape v = shp \<Longrightarrow> \<exists>v'. squaring_step p1 p2 grid v = Inr v' \<and> shape v' = shp"
  shows "shape v = shp \<Longrightarrow> all_zero v \<Longrightarrow>
    \<exists>v'. squaring_loop p1 p2 grid n v = Inr v' \<and> shape v' = shp \<and> all_zero v'"
proof (induction n arbitrary: v)
  case 0
  then show ?case by simp
next
  case (Suc n)
  from step[OF Suc.prems(1)] obtain w where w: "squaring_step p1 p2 grid v = Inr w" "shape w = shp"
    by blast
  from squaring_step_zero[OF Suc.prems(2) w(1)] have "all_zero w" .
  from Suc.IH[OF w(2) this] show ?case
    by (simp add: w bind_err_def)
qed

text \<open>
  C8, as amended. For every all-zero velocity field of shape \<open>[B, H, W, 2]\<close> or
  \<open>[B, D, H, W, 3]\<close>, every sampling grid of the same shape and every step count
  \<open>n\<close> below 1024, \<^verbatim>\<open>scaling_and_squaring\<close> returns an all-zero displacement field of
  the shape of the velocity field.
\<close>

theorem scaling_and_squaring_zero:
  assumes "shape u = [b, h, w, 2] \<or> shape u = [b, d, h, w, 3]"
    and "shape grid = shape u" and "all_zero u" and "n < 1024"
  shows "\<exists>v. scaling_and_squaring u grid n = Inr v \<and> shape v = shape u \<and> all_zero v"
proof -
  have sm: "shape (smul (1 / 2 ^ n) u) = shape u" "all_zero (smul (1 / 2 ^ n) u)"
    using assms(3) by (simp_all add: smul_zero) (simp add: smul_def)
  from assms(1) show ?thesis
  proof
    assume s: "shape u = [b, h, w, 2]"
    have "\<exists>v'. squaring_loop [0, 3, 1, 2] [0, 2, 3, 1] grid n (smul (1 / 2 ^ n) u) = Inr v'
            \<and> shape v' = [b, h, w, 2] \<and> all_zero v'"
      by (rule squaring_loop_zero) (use s sm assms(2) squaring_step_planar[of _ b h w grid] in auto)
    then show ?thesis using s assms(4)
      by (simp add: scaling_and_squaring_def scale_factor_def bind_err_def)
  next
    assume s: "shape u = [b, d, h, w, 3]"
    have "\<exists>v'. squaring_loop [0, 4, 1, 2, 3] [0, 2, 3, 4, 1] grid n (smul (1 / 2 ^ n) u) = Inr v'
            \<and> shape v' = [b, d, h, w, 3] \<and> all_zero v'"
      by (rule squaring_loop_zero) (use s sm assms(2) squaring_step_volumetric[of _ b d h w grid] in auto)
    then show ?thesis using s assms(4)
      by (simp add: scaling_and_squaring_def scale_factor_def bind_err_def)
  qed
qed

theorem scaling_and_squaring_zero_witness:
  "\<exists>v. scaling_and_squaring (zeros [1, 2, 2, 2]) (identity_grid [1, 2, 2, 2]) 6 = Inr v
       \<and> shape v = [1, 2, 2, 2] \<and> all_zero v"
proof -
  have "all_zero (zeros [1, 2, 2, 2])"
    by (simp add: all_zero_def zeros_def list_all_iff)
  from scaling_and_squaring_zero[of "zeros [1, 2, 2, 2]" 1 2 2 0 "identity_grid [1, 2, 2, 2]" 6, OF _ _ this]
  show ?thesis by (simp add: zeros_def identity_grid_def)
qed

text \<open>
  The claim as stated fails from 1024 steps on: \<^verbatim>\<open>1.0/2**1024\<close> raises OverflowError
  before the field is touched.
\<close>

theorem scaling_and_squaring_zero_counterexample:
  "all_zero (zeros [1, 2, 2, 2])
   \<and> scaling_and_squaring (zeros [1, 2, 2, 2]) (identity_grid [1, 2, 2, 2]) 1024 = Inl OverflowError"
  by (simp add: scaling_and_squaring_def scale_factor_def bind_err_def zeros_def all_zero_def
      list_all_iff)

section \<open>The structure of a run of optimize\<close>

text \<open>
  What a successful iteration, a successful scale and a successful run consist of, and
  what they leave unchanged: an iteration appends one entry to the iteration log and
  writes the parameter and the optimizer state only; a scale appends one entry to the
  scale log.
\<close>

lemma bind_err_Inr: "bind_err m f = Inr y \<longleftrightarrow> (\<exists>x. m = Inr x \<and> f x = Inr y)"
  by (cases m) (simp_all add: bind_err_def)

lemma iteration_Inr:
  assumes "iteration e fd homo st = Inr (st', brk)"
  obtains affinemat coords1 coords2 moved ctr where
    "get_affine_matrix (self st) = Inr affinemat"
    "einsum_ntd affinemat homo = Inr coords1"
    "einsum_ntd (phy2torch (moving_images (self st))) coords1 = Inr coords2"
    "grid_sample (arrays (moving_images (self st))) (drop_last_coord coords2) = Inr moved"
    "convergence_check (tolerance_mode (self st)) (tolerance (self st))
        (max_tolerance_iters (self st)) (prev_loss st) (loss_fn (self st) moved fd) (tol_ctr st) = Inr (ctr, brk)"
    "st' = st\<lparr>self := (self st)\<lparr>affine := \<lparr>shape = shape (affine (self st)),
                                             elem = snd (autograd_step e (self st) homo fd)\<rparr>,
                                  optimizer := fst (autograd_step e (self st) homo fd)\<rparr>,
              moved_image := Some moved, tol_ctr := ctr,
              prev_loss := (if brk then prev_loss st else loss_fn (self st) moved fd),
              iter_logs := iter_logs st
                @ [\<lparr>il_affinemat = affinemat, il_coords = drop_last_coord coords2,
                    il_moved = moved, il_prev_loss = prev_loss st,
                    il_cur_loss = loss_fn (self st) moved fd, il_ctr_before = tol_ctr st,
                    il_ctr_after = ctr, il_broke = brk\<rparr>]\<rparr>"
  using assms
  unfolding iteration_def Let_def bind_err_Inr
  by (auto split: prod.splits)

lemma iterate_invariant:
  assumes step: "\<And>s s' b. I s \<Longrightarrow> iteration e fd homo s = Inr (s', b) \<Longrightarrow>
      I s' \<and> (\<exists>il. iter_logs s' = iter_logs s @ [il] \<and> P il)"
  shows "iterate e fd homo k st = Inr st' \<Longrightarrow> I st \<Longrightarrow>
      I st' \<and> (\<exists>ils. iter_logs st' = iter_logs st @ ils \<and> list_all P ils)"
proof (induction k arbitrary: st)
  case 0
  then show ?case by simp
next
  case (Suc k)
  from Suc.prems(1) obtain s b where it: "iteration e fd homo st = Inr (s, b)"
    and rest: "(if b then Inr s else iterate e fd homo k s) = Inr st'"
    by (auto simp: bind_err_Inr)
  from step[OF Suc.prems(2) it] obtain il where s: "I s" "iter_logs s = iter_logs st @ [il]" "P il"
    by blast
  show ?case
  proof (cases b)
    case True
    with rest s show ?thesis by auto
  next
    case False
    with rest have "iterate e fd homo k s = Inr st'" by simp
    from Suc.IH[OF this s(1)] s(2,3) show ?thesis by auto
  qed
qed

lemma iteration_frame:
  assumes "iteration e fd homo s = Inr (s', b)" "same_configuration reg (self s)"
  shows "same_configuration reg (self s') \<and> scale_logs s' = scale_logs s
    \<and> transformed_images s' = transformed_images s \<and> moved_image s' \<noteq> None
    \<and> (\<exists>il. iter_logs s' = iter_logs s @ [il])"
  by (rule iteration_Inr[OF assms(1)]) (use assms(2) in \<open>simp add: same_configuration_def\<close>)

lemma iterate_frame:
  assumes "iterate e fd homo k s = Inr s'" "same_configuration reg (self s)"
  shows "same_configuration reg (self s') \<and> scale_logs s' = scale_logs s
    \<and> transformed_images s' = transformed_images s"
proof -
  have "(same_configuration reg (self s') \<and> scale_logs s' = scale_logs s
        \<and> transformed_images s' = transformed_images s)
      \<and> (\<exists>ils. iter_logs s' = iter_logs s @ ils \<and> list_all (\<lambda>il. True) ils)"
  proof (rule iterate_invariant[where I = "\<lambda>x. same_configuration reg (self x)
          \<and> scale_logs x = scale_logs s \<and> transformed_images x = transformed_images s", OF _ assms(1)])
    fix x x' b
    assume "same_configuration reg (self x) \<and> scale_logs x = scale_logs s
        \<and> transformed_images x = transformed_images s"
      and "iteration e fd homo x = Inr (x', b)"
    with iteration_frame[of e fd homo x x' b reg]
    show "(same_configuration reg (self x') \<and> scale_logs x' = scale_logs s
        \<and> transformed_images x' = transformed_images s)
        \<and> (\<exists>il. iter_logs x' = iter_logs x @ [il] \<and> True)"
      by simp
  next
    show "same_configuration reg (self s) \<and> scale_logs s = scale_logs s
        \<and> transformed_images s = transformed_images s"
      using assms(2) by simp
  qed
  then show ?thesis by simp
qed

lemma iterate_moved:
  "iterate e fd homo k s = Inr s' \<Longrightarrow> moved_image s \<noteq> None \<or> 0 < k \<Longrightarrow> moved_image s' \<noteq> None"
proof (induction k arbitrary: s)
  case 0
  then show ?case by simp
next
  case (Suc k)
  from Suc.prems(1) obtain s1 b where it: "iteration e fd homo s = Inr (s1, b)"
    and rest: "(if b then Inr s1 else iterate e fd homo k s1) = Inr s'"
    by (auto simp: bind_err_Inr)
  from it have m: "moved_image s1 \<noteq> None"
    by (rule iteration_Inr) simp
  show ?case
  proof (cases b)
    case True
    with rest m show ?thesis by auto
  next
    case False
    with rest have "iterate e fd homo k s1 = Inr s'" by simp
    from Suc.IH[OF this] m show ?thesis by simp
  qed
qed

lemma run_scale_Inr:
  assumes "run_scale e save (scale, iters) st = Inr st'"
  shows "\<exists>sz fd grid homo0 homo st1.
    size_down (min_img_size e) scale (drop 2 (shape (arrays (fixed_images (self st))))) = Inr sz
    \<and> interpolate (interp_values e) (arrays (fixed_images (self st))) sz
        (interpolate_mode (fixed_images (self st))) = Inr fd
    \<and> affine_grid (eye_batch (batch_count (fixed_images (self st))) (dims (self st))) (shape fd) = Inr grid
    \<and> homogenize grid = Inr homo0
    \<and> einsum_ntd (torch2phy (fixed_images (self st))) homo0 = Inr homo
    \<and> iterate e fd homo (nat iters) (st\<lparr>tol_ctr := 0, prev_loss := PInf, iter_logs := []\<rparr>) = Inr st1
    \<and> scale_logs st' = scale_logs st1 @ [\<lparr>sl_scale = scale, sl_budget = iters, sl_size_down = sz,
        sl_fixed_image_down = fd, sl_grid = grid, sl_iters = iter_logs st1\<rparr>]
    \<and> self st' = self st1 \<and> moved_image st' = moved_image st1
    \<and> transformed_images st' = (if save then transformed_images st1 @ [the (moved_image st1)]
                               else transformed_images st1)
    \<and> (save \<longrightarrow> moved_image st1 \<noteq> None)"
proof (cases save)
  case True
  with assms obtain sz fd grid homo0 homo st1 m where
    a: "size_down (min_img_size e) scale (drop 2 (shape (arrays (fixed_images (self st))))) = Inr sz"
    "interpolate (interp_values e) (arrays (fixed_images (self st))) sz
        (interpolate_mode (fixed_images (self st))) = Inr fd"
    "affine_grid (eye_batch (batch_count (fixed_images (self st))) (dims (self st))) (shape fd) = Inr grid"
    "homogenize grid = Inr homo0"
    "einsum_ntd (torch2phy (fixed_images (self st))) homo0 = Inr homo"
    "iterate e fd homo (nat iters) (st\<lparr>tol_ctr := 0, prev_loss := PInf, iter_logs := []\<rparr>) = Inr st1"
    and fin: "moved_image st1 = Some m"
      "st' = st1\<lparr>scale_logs := scale_logs st1 @ [\<lparr>sl_scale = scale, sl_budget = iters,
          sl_size_down = sz, sl_fixed_image_down = fd, sl_grid = grid, sl_iters = iter_logs st1\<rparr>],
          transformed_images := transformed_images st1 @ [m]\<rparr>"
    by (auto simp: run_scale_def Let_def bind_err_Inr split: option.splits)
  from fin True have "scale_logs st' = scale_logs st1 @ [\<lparr>sl_scale = scale, sl_budget = iters, sl_size_down = sz,
        sl_fixed_image_down = fd, sl_grid = grid, sl_iters = iter_logs st1\<rparr>]
    \<and> self st' = self st1 \<and> moved_image st' = moved_image st1
    \<and> transformed_images st' = (if save then transformed_images st1 @ [the (moved_image st1)]
                               else transformed_images st1)
    \<and> (save \<longrightarrow> moved_image st1 \<noteq> None)"
    by simp
  with a show ?thesis by blast
next
  case False
  with assms obtain sz fd grid homo0 homo st1 where
    a: "size_down (min_img_size e) scale (drop 2 (shape (arrays (fixed_images (self st))))) = Inr sz"
    "interpolate (interp_values e) (arrays (fixed_images (self st))) sz
        (interpolate_mode (fixed_images (self st))) = Inr fd"
    "affine_grid (eye_batch (batch_count (fixed_images (self st))) (dims (self st))) (shape fd) = Inr grid"
    "homogenize grid = Inr homo0"
    "einsum_ntd (torch2phy (fixed_images (self st))) homo0 = Inr homo"
    "iterate e fd homo (nat iters) (st\<lparr>tol_ctr := 0, prev_loss := PInf, iter_logs := []\<rparr>) = Inr st1"
    and fin: "st' = st1\<lparr>scale_logs := scale_logs st1 @ [\<lparr>sl_scale = scale, sl_budget = iters,
          sl_size_down = sz, sl_fixed_image_down = fd, sl_grid = grid, sl_iters = iter_logs st1\<rparr>]\<rparr>"
    by (auto simp: run_scale_def Let_def bind_err_Inr)
  from fin False have "scale_logs st' = scale_logs st1 @ [\<lparr>sl_scale = scale, sl_budget = iters, sl_size_down = sz,
        sl_fixed_image_down = fd, sl_grid = grid, sl_iters = iter_logs st1\<rparr>]
    \<and> self st' = self st1 \<and> moved_image st' = moved_image st1
    \<and> transformed_images st' = (if save then transformed_images st1 @ [the (moved_image st1)]
                               else transformed_images st1)
    \<and> (save \<longrightarrow> moved_image st1 \<noteq> None)"
    by simp
  with a show ?thesis by blast
qed

lemma run_scale_frame:
  assumes "run_scale e save si s = Inr s'" "same_configuration reg (self s)"
  shows "same_configuration reg (self s')
    \<and> (\<exists>sl. scale_logs s' = scale_logs s @ [sl])
    \<and> transformed_images s' = (if save then transformed_images s @ [the (moved_image s')]
                               else transformed_images s)"
proof -
  obtain scale iters where si: "si = (scale, iters)" by (cases si)
  from run_scale_Inr[OF assms(1)[unfolded si]] obtain sz fd grid homo0 homo st1 where
    it: "iterate e fd homo (nat iters) (s\<lparr>tol_ctr := 0, prev_loss := PInf, iter_logs := []\<rparr>) = Inr st1"
    and rest: "scale_logs s' = scale_logs st1 @ [\<lparr>sl_scale = scale, sl_budget = iters, sl_size_down = sz,
        sl_fixed_image_down = fd, sl_grid = grid, sl_iters = iter_logs st1\<rparr>]"
      "self s' = self st1" "moved_image s' = moved_image st1"
      "transformed_images s' = (if save then transformed_images st1 @ [the (moved_image st1)]
                               else transformed_images st1)"
    by blast
  from iterate_frame[OF it, of reg] assms(2) rest
  show ?thesis by simp
qed

lemma run_scales_logs:
  assumes step: "\<And>s1 s2 si. same_configuration reg (self s1) \<Longrightarrow> run_scale e save si s1 = Inr s2 \<Longrightarrow>
      Q si (last (scale_logs s2))"
  shows "run_scales e save sis s = Inr s' \<Longrightarrow> same_configuration reg (self s) \<Longrightarrow>
    same_configuration reg (self s')
    \<and> (\<exists>sls. scale_logs s' = scale_logs s @ sls \<and> list_all2 Q sis sls)
    \<and> length (transformed_images s') = length (transformed_images s) + (if save then length sis else 0)"
proof (induction sis arbitrary: s)
  case Nil
  then show ?case by simp
next
  case (Cons si sis)
  from Cons.prems(1) obtain s1 where rs: "run_scale e save si s = Inr s1"
    and rest: "run_scales e save sis s1 = Inr s'"
    by (auto simp: bind_err_Inr)
  from run_scale_frame[OF rs Cons.prems(2)] obtain sl where
    f: "same_configuration reg (self s1)" "scale_logs s1 = scale_logs s @ [sl]"
    "transformed_images s1 = (if save then transformed_images s @ [the (moved_image s1)]
                               else transformed_images s)"
    by blast
  from step[OF Cons.prems(2) rs] f(2) have q: "Q si sl" by simp
  from Cons.IH[OF rest f(1)] obtain sls where
    "same_configuration reg (self s')" "scale_logs s' = scale_logs s1 @ sls" "list_all2 Q sis sls"
    "length (transformed_images s') = length (transformed_images s1) + (if save then length sis else 0)"
    by blast
  with f q show ?case by auto
qed

lemma same_configuration_refl: "same_configuration reg reg"
  by (simp add: same_configuration_def)

lemma optimize_Inr:
  assumes "optimize e reg save = Inr (ret, st)"
  shows "run_scales e save (zip (scales reg) (iterations reg)) (initial_state reg) = Inr st"
    "ret = (if save then PyList (transformed_images st) else PyNone)"
  using assms by (auto simp: optimize_def bind_err_Inr)

lemma optimize_logs:
  assumes "optimize e reg save = Inr (ret, st)"
    and "\<And>s1 s2 si. same_configuration reg (self s1) \<Longrightarrow> run_scale e save si s1 = Inr s2 \<Longrightarrow>
      Q si (last (scale_logs s2))"
  shows "list_all2 Q (zip (scales reg) (iterations reg)) (scale_logs st)"
proof -
  from run_scales_logs[where Q = Q, OF assms(2) optimize_Inr(1)[OF assms(1)]]
  show ?thesis by (auto simp: initial_state_def same_configuration_refl)
qed

section \<open>The example run\<close>

text \<open>
  The unfolding rules that evaluate a run of the example registration, and the fact
  that this run does not raise when the loss is constant.
\<close>

lemmas run_defs = optimize_def init_def abstract_init_def bind_err_def Let_def
     initial_state_def run_scale_def size_down_def trunc_div_def interpolate_def affine_grid_def eye_batch_def
     homogenize_def cat2_def ones_def einsum_ntd_def square_eye_def iteration_def get_affine_matrix_def homogeneous_row_def
     drop_last_coord_def grid_sample_def convergence_check_def example_env_def example_reg_def example_images_def
     example_init_def

lemma example_run_ok: "\<not> isl (example_run save)"
  by (simp add: example_run_def run_defs numeral_nat split: prod.splits)

lemma Inr_projr: "\<not> isl x \<Longrightarrow> x = Inr (fst (projr x), snd (projr x))"
  by (cases x) auto

lemma example_run_Inr:
  "optimize example_env (example_reg (\<lambda>moved fixed. Fin 1) ''atol'') save
     = Inr (fst (projr (example_run save)), snd (projr (example_run save)))"
  using Inr_projr[OF example_run_ok[of save]] by (simp add: example_run_def)

lemma example_logs_summary:
  "map (\<lambda>sl. (sl_scale sl, sl_budget sl, sl_size_down sl,
          map (\<lambda>il. (il_ctr_before il, il_ctr_after il, il_broke il)) (sl_iters sl))) example_logs
   = [(4, 5, [2, 2], [(0, 0, False), (0, 1, False), (1, 2, True)]),
      (1, 2, [4, 4], [(0, 0, False), (0, 1, False)])]"
  by (simp add: example_logs_def example_run_def run_defs numeral_nat split: prod.splits)

lemma example_logs_length:
  "length example_logs = 2 \<and> length (sl_iters (example_logs ! 0)) = 3
   \<and> length (sl_iters (example_logs ! 1)) = 2"
proof -
  have "length (map (\<lambda>sl. (sl_scale sl, sl_budget sl, sl_size_down sl,
          map (\<lambda>il. (il_ctr_before il, il_ctr_after il, il_broke il)) (sl_iters sl))) example_logs) = 2"
    by (simp only: example_logs_summary) simp
  then have l: "length example_logs = 2" by simp
  have "map (\<lambda>il. (il_ctr_before il, il_ctr_after il, il_broke il)) (sl_iters (example_logs ! 0))
      = [(0, 0, False), (0, 1, False), (1, 2, True)]"
    using arg_cong[OF example_logs_summary, of "\<lambda>xs. snd (snd (snd (xs ! 0)))"] l by simp
  then have "length (map (\<lambda>il. (il_ctr_before il, il_ctr_after il, il_broke il)) (sl_iters (example_logs ! 0))) = 3"
    by simp
  then have a: "length (sl_iters (example_logs ! 0)) = 3" by simp
  have "map (\<lambda>il. (il_ctr_before il, il_ctr_after il, il_broke il)) (sl_iters (example_logs ! 1))
      = [(0, 0, False), (0, 1, False)]"
    using arg_cong[OF example_logs_summary, of "\<lambda>xs. snd (snd (snd (xs ! 1)))"] l by simp
  then have "length (map (\<lambda>il. (il_ctr_before il, il_ctr_after il, il_broke il)) (sl_iters (example_logs ! 1))) = 2"
    by simp
  then have "length (sl_iters (example_logs ! 1)) = 2" by simp
  with a l show ?thesis by simp
qed

section \<open>Construction\<close>

text \<open>
  C7. If the list of scales and the list of iteration budgets differ in length,
  construction raises a configuration error, so that no registration object exists and
  no iteration runs; and every registration object that construction returns has lists
  of equal length, so that the \<^verbatim>\<open>zip\<close> of \<^verbatim>\<open>optimize\<close> drops no scale. (The check
  itself is in the base class, modelled from the spec by \<open>abstract_init\<close>.)
\<close>

theorem mismatched_schedule_raises:
  "(length scales_arg \<noteq> length iterations_arg \<longrightarrow>
      init e scales_arg iterations_arg fixed moving loss optimizer_name lr momentum tol max_iters
        mode init_rigid = Inl ConfigurationError)
   \<and> (init e scales_arg iterations_arg fixed moving loss optimizer_name lr momentum tol max_iters
        mode init_rigid = Inr reg \<longrightarrow>
      length (scales reg) = length (iterations reg)
      \<and> length (zip (scales reg) (iterations reg)) = length (scales reg))"
  by (auto simp: init_def abstract_init_def bind_err_def Let_def split: if_splits)

theorem mismatched_schedule_raises_witness:
  "init example_env [4, 2, 1] [5, 2] example_images example_images (\<lambda>a b. Fin 1) ''SGD'' 0.1 0
      (Fin 0.000001) 1 ''atol'' None = Inl ConfigurationError
   \<and> length (scales (example_reg (\<lambda>a b. Fin 1) ''atol''))
       = length (iterations (example_reg (\<lambda>a b. Fin 1) ''atol''))"
proof -
  have "init example_env [4, 1] [5, 2] example_images example_images (\<lambda>a b. Fin 1) ''SGD'' 0.1 0
      (Fin 0.000001) 1 ''atol'' None = Inr (example_reg (\<lambda>a b. Fin 1) ''atol'')"
    by (simp add: run_defs)
  with mismatched_schedule_raises[of "[4, 1]" "[5, 2]" example_env example_images example_images
      "\<lambda>a b. Fin 1" "''SGD''" "0.1" 0 "Fin 0.000001" 1 "''atol''" None "example_reg (\<lambda>a b. Fin 1) ''atol''"]
    mismatched_schedule_raises[of "[4, 2, 1]" "[5, 2]" example_env example_images example_images
      "\<lambda>a b. Fin 1" "''SGD''" "0.1" 0 "Fin 0.000001" 1 "''atol''" None "example_reg (\<lambda>a b. Fin 1) ''atol''"]
  show ?thesis by simp
qed

section \<open>Division by a zero loss\<close>

text \<open>
  C5. In \<^verbatim>\<open>rtol\<close> mode, when the previous loss is exactly 0 at the convergence check,
  the check raises ZeroDivisionError whatever the current loss is: the iteration cannot
  complete, and when the steps before the check succeed, ZeroDivisionError is what the
  iteration raises. No NaN or infinity reaches the comparison with the tolerance.
\<close>

theorem rtol_zero_previous_loss_raises:
  assumes "tolerance_mode (self st) = ''rtol''" "prev_loss st = Fin 0"
  shows "convergence_check (tolerance_mode (self st)) (tolerance (self st))
            (max_tolerance_iters (self st)) (prev_loss st) cur (tol_ctr st) = Inl ZeroDivisionError
    \<and> (\<forall>r. iteration e fd homo st \<noteq> Inr r)
    \<and> ((\<exists>a c1 c2 m. get_affine_matrix (self st) = Inr a \<and> einsum_ntd a homo = Inr c1
            \<and> einsum_ntd (phy2torch (moving_images (self st))) c1 = Inr c2
            \<and> grid_sample (arrays (moving_images (self st))) (drop_last_coord c2) = Inr m)
        \<longrightarrow> iteration e fd homo st = Inl ZeroDivisionError)"
proof -
  have cc: "\<And>c. convergence_check (tolerance_mode (self st)) (tolerance (self st))
            (max_tolerance_iters (self st)) (prev_loss st) c (tol_ctr st) = Inl ZeroDivisionError"
    using assms by (simp add: convergence_check_def bind_err_def)
  have "iteration e fd homo st \<noteq> Inr r" for r
  proof
    assume "iteration e fd homo st = Inr r"
    then have "iteration e fd homo st = Inr (fst r, snd r)" by simp
    then show False by (rule iteration_Inr) (simp add: cc)
  qed
  moreover have "iteration e fd homo st = Inl ZeroDivisionError"
    if "\<exists>a c1 c2 m. get_affine_matrix (self st) = Inr a \<and> einsum_ntd a homo = Inr c1
            \<and> einsum_ntd (phy2torch (moving_images (self st))) c1 = Inr c2
            \<and> grid_sample (arrays (moving_images (self st))) (drop_last_coord c2) = Inr m"
    using that by (auto simp: iteration_def Let_def bind_err_def cc)
  ultimately show ?thesis using cc by blast
qed

theorem rtol_zero_previous_loss_raises_witness:
  "iteration example_env (arrays example_images) (ones [1, 4, 4, 3])
     ((initial_state (example_reg (\<lambda>a b. Fin 0) ''rtol''))\<lparr>prev_loss := Fin 0\<rparr>) = Inl ZeroDivisionError
   \<and> optimize example_env (example_reg (\<lambda>a b. Fin 0) ''rtol'') False = Inl ZeroDivisionError"
proof -
  have "\<exists>a c1 c2 m. get_affine_matrix (example_reg (\<lambda>a b. Fin 0) ''rtol'') = Inr a
      \<and> einsum_ntd a (ones [1, 4, 4, 3]) = Inr c1
      \<and> einsum_ntd (phy2torch (moving_images (example_reg (\<lambda>a b. Fin 0) ''rtol''))) c1 = Inr c2
      \<and> grid_sample (arrays (moving_images (example_reg (\<lambda>a b. Fin 0) ''rtol''))) (drop_last_coord c2) = Inr m"
    by (simp add: run_defs)
  with rtol_zero_previous_loss_raises[of "(initial_state (example_reg (\<lambda>a b. Fin 0) ''rtol''))\<lparr>prev_loss := Fin 0\<rparr>"
      "Fin 0" example_env "arrays example_images" "ones [1, 4, 4, 3]"]
  have "iteration example_env (arrays example_images) (ones [1, 4, 4, 3])
     ((initial_state (example_reg (\<lambda>a b. Fin 0) ''rtol''))\<lparr>prev_loss := Fin 0\<rparr>) = Inl ZeroDivisionError"
    by (simp add: initial_state_def example_reg_def)
  moreover have "optimize example_env (example_reg (\<lambda>a b. Fin 0) ''rtol'') False = Inl ZeroDivisionError"
    by (simp add: run_defs numeral_nat split: prod.splits)
  ultimately show ?thesis by simp
qed

section \<open>The convergence policy\<close>

lemma iteration_log:
  assumes "iteration e fd homo s = Inr (s1, b)"
  shows "\<exists>il. iter_logs s1 = iter_logs s @ [il]
    \<and> il_ctr_before il = tol_ctr s \<and> il_prev_loss il = prev_loss s \<and> il_broke il = b
    \<and> tol_ctr s1 = il_ctr_after il \<and> (\<not> b \<longrightarrow> prev_loss s1 = il_cur_loss il)
    \<and> convergence_check (tolerance_mode (self s)) (tolerance (self s))
          (max_tolerance_iters (self s)) (prev_loss s) (il_cur_loss il) (tol_ctr s)
        = Inr (il_ctr_after il, b)
    \<and> get_affine_matrix (self s) = Inr (il_affinemat il)
    \<and> (\<exists>c1 c2. einsum_ntd (il_affinemat il) homo = Inr c1
          \<and> einsum_ntd (phy2torch (moving_images (self s))) c1 = Inr c2
          \<and> il_coords il = drop_last_coord c2)
    \<and> grid_sample (arrays (moving_images (self s))) (il_coords il) = Inr (il_moved il)
    \<and> il_cur_loss il = loss_fn (self s) (il_moved il) fd"
  by (rule iteration_Inr[OF assms]) simp

lemma improvement_below_first: "\<not> improvement_below mode tol PInf cur"
  by (cases cur; cases tol) (simp_all add: improvement_below_def)

lemma convergence_check_policy:
  assumes "mode = ''atol'' \<or> mode = ''rtol''"
    and "convergence_check mode tol max_iters prev cur ctr = Inr (ctr', brk)"
  shows "ctr' = (if improvement_below mode tol prev cur then ctr + 1 else 0)
    \<and> brk = (improvement_below mode tol prev cur \<and> max_iters < ctr')"
  using assms
  by (auto simp: convergence_check_def improvement_below_def bind_err_Inr split: if_splits)

lemma follows_policy_ConsI:
  assumes "il_ctr_before il = ctr" "il_prev_loss il = prev"
    and "il_ctr_after il = (if improvement_below mode tol prev (il_cur_loss il) then ctr + 1 else 0)"
    and "il_broke il = (improvement_below mode tol prev (il_cur_loss il) \<and> max_iters < il_ctr_after il)"
    and "if il_broke il then ils = [] else follows_policy mode tol max_iters (il_ctr_after il) (il_cur_loss il) ils"
  shows "follows_policy mode tol max_iters ctr prev (il # ils)"
  unfolding follows_policy.simps using assms by blast

lemma iterate_follows_policy:
  assumes mode: "tolerance_mode reg = ''atol'' \<or> tolerance_mode reg = ''rtol''"
  shows "iterate e fd homo k s = Inr s' \<Longrightarrow> same_configuration reg (self s) \<Longrightarrow>
     \<exists>ils. iter_logs s' = iter_logs s @ ils
       \<and> follows_policy (tolerance_mode reg) (tolerance reg) (max_tolerance_iters reg)
            (tol_ctr s) (prev_loss s) ils
       \<and> length ils \<le> k \<and> (length ils < k \<longrightarrow> ils \<noteq> [] \<and> il_broke (last ils))"
proof (induction k arbitrary: s)
  case 0
  then show ?case by simp
next
  case (Suc k)
  from Suc.prems(1) obtain s1 b where it: "iteration e fd homo s = Inr (s1, b)"
    and rest: "(if b then Inr s1 else iterate e fd homo k s1) = Inr s'"
    by (auto simp: bind_err_Inr)
  from Suc.prems(2) have cfg: "tolerance_mode (self s) = tolerance_mode reg"
    "tolerance (self s) = tolerance reg" "max_tolerance_iters (self s) = max_tolerance_iters reg"
    by (simp_all add: same_configuration_def)
  from iteration_log[OF it] obtain il where
    il: "iter_logs s1 = iter_logs s @ [il]" "il_ctr_before il = tol_ctr s" "il_prev_loss il = prev_loss s"
      "il_broke il = b" "tol_ctr s1 = il_ctr_after il" "\<not> b \<longrightarrow> prev_loss s1 = il_cur_loss il"
    and cc: "convergence_check (tolerance_mode reg) (tolerance reg) (max_tolerance_iters reg)
        (prev_loss s) (il_cur_loss il) (tol_ctr s) = Inr (il_ctr_after il, b)"
    unfolding cfg by blast
  from convergence_check_policy[OF mode cc]
  have pol: "il_ctr_after il = (if improvement_below (tolerance_mode reg) (tolerance reg) (prev_loss s)
                (il_cur_loss il) then tol_ctr s + 1 else 0)"
    "b = (improvement_below (tolerance_mode reg) (tolerance reg) (prev_loss s) (il_cur_loss il)
          \<and> max_tolerance_iters reg < il_ctr_after il)"
    by blast+
  show ?case
  proof (cases b)
    case True
    with rest have s': "s' = s1" by simp
    from True il(4) have "if il_broke il then [] = ([]::iter_log list)
        else follows_policy (tolerance_mode reg) (tolerance reg) (max_tolerance_iters reg)
               (il_ctr_after il) (il_cur_loss il) []"
      by simp
    from follows_policy_ConsI[OF il(2,3) pol(1) pol(2)[folded il(4)] this]
    have fp: "follows_policy (tolerance_mode reg) (tolerance reg) (max_tolerance_iters reg)
        (tol_ctr s) (prev_loss s) [il]" .
    from True il(4) have len: "length [il] \<le> Suc k"
      "length [il] < Suc k \<longrightarrow> [il] \<noteq> [] \<and> il_broke (last [il])"
      by simp_all
    from il(1) s' have logs: "iter_logs s' = iter_logs s @ [il]" by simp
    from logs fp len show ?thesis by blast
  next
    case False
    with rest have run: "iterate e fd homo k s1 = Inr s'" by simp
    from iteration_frame[OF it Suc.prems(2)] have "same_configuration reg (self s1)" by simp
    from Suc.IH[OF run this] obtain ils where
      ils: "iter_logs s' = iter_logs s1 @ ils"
      "follows_policy (tolerance_mode reg) (tolerance reg) (max_tolerance_iters reg)
            (tol_ctr s1) (prev_loss s1) ils"
      "length ils \<le> k" "length ils < k \<longrightarrow> ils \<noteq> [] \<and> il_broke (last ils)"
      by blast
    from False il(4,5,6) ils(2)
    have "if il_broke il then ils = []
        else follows_policy (tolerance_mode reg) (tolerance reg) (max_tolerance_iters reg)
               (il_ctr_after il) (il_cur_loss il) ils"
      by simp
    from follows_policy_ConsI[OF il(2,3) pol(1) pol(2)[folded il(4)] this]
    have fp: "follows_policy (tolerance_mode reg) (tolerance reg) (max_tolerance_iters reg)
        (tol_ctr s) (prev_loss s) (il # ils)" .
    from ils(1) il(1) have logs: "iter_logs s' = iter_logs s @ (il # ils)" by simp
    from ils(3,4) have len: "length (il # ils) \<le> Suc k"
      "length (il # ils) < Suc k \<longrightarrow> il # ils \<noteq> [] \<and> il_broke (last (il # ils))"
      by auto
    from logs fp len show ?thesis by blast
  qed
qed

lemma follows_policy_first:
  assumes "follows_policy mode tol max_iters 0 PInf ils" "ils \<noteq> []"
  shows "il_ctr_after (hd ils) = 0 \<and> \<not> il_broke (hd ils)"
  using assms by (cases ils) (auto simp: improvement_below_first)

lemma follows_policy_broke:
  "follows_policy mode tol max_iters ctr prev ils \<Longrightarrow> 0 \<le> max_iters \<Longrightarrow>
     list_all (\<lambda>il. il_broke il = (max_iters < il_ctr_after il)) ils"
proof (induction ils arbitrary: ctr prev)
  case Nil
  then show ?case by simp
next
  case (Cons il ils)
  from Cons.prems(1) have parts:
    "il_ctr_after il = (if improvement_below mode tol prev (il_cur_loss il) then ctr + 1 else 0)"
    "il_broke il = (improvement_below mode tol prev (il_cur_loss il) \<and> max_iters < il_ctr_after il)"
    "if il_broke il then ils = [] else follows_policy mode tol max_iters (il_ctr_after il) (il_cur_loss il) ils"
    unfolding follows_policy.simps by blast+
  have here: "il_broke il = (max_iters < il_ctr_after il)"
  proof (cases "improvement_below mode tol prev (il_cur_loss il)")
    case True
    with parts(2) show ?thesis by simp
  next
    case False
    with parts(1) have "il_ctr_after il = 0" by simp
    with parts(2) False Cons.prems(2) show ?thesis by simp
  qed
  show ?case
  proof (cases "il_broke il")
    case True
    with parts(3) have "ils = []" by simp
    with here show ?thesis by simp
  next
    case False
    with parts(3) have "follows_policy mode tol max_iters (il_ctr_after il) (il_cur_loss il) ils"
      by simp
    from Cons.IH[OF this Cons.prems(2)] here show ?thesis by simp
  qed
qed

text \<open>
  C4. In a run of \<^verbatim>\<open>optimize\<close> in \<^verbatim>\<open>atol\<close> or \<^verbatim>\<open>rtol\<close> mode, the iterations of
  every scale of the schedule follow the convergence policy from the counter 0 and the
  previous loss \<open>+\<infinity>\<close>: the counter is incremented exactly where the improvement is
  below the tolerance and reset to 0 otherwise, an iteration stops the scale exactly
  when it incremented the counter beyond \<^verbatim>\<open>max_tolerance_iters\<close>, and no iteration
  follows it. With a \<^verbatim>\<open>max_tolerance_iters\<close> that is not negative, an iteration
  stops the scale exactly when the counter exceeds \<^verbatim>\<open>max_tolerance_iters\<close> after it.
  A scale runs at most its budget of iterations, and fewer only when its last
  iteration stopped it. The first iteration of a scale leaves the counter at 0 and
  never stops the scale.
\<close>

theorem convergence_policy:
  assumes "optimize e reg save_transformed = Inr (ret, st)"
    and "tolerance_mode reg = ''atol'' \<or> tolerance_mode reg = ''rtol''"
  shows "list_all2 (\<lambda>si sl. sl_scale sl = fst si \<and> sl_budget sl = snd si
        \<and> follows_policy (tolerance_mode reg) (tolerance reg) (max_tolerance_iters reg) 0 PInf (sl_iters sl)
        \<and> (0 \<le> max_tolerance_iters reg \<longrightarrow>
              list_all (\<lambda>il. il_broke il = (max_tolerance_iters reg < il_ctr_after il)) (sl_iters sl))
        \<and> length (sl_iters sl) \<le> nat (snd si)
        \<and> (length (sl_iters sl) < nat (snd si) \<longrightarrow> sl_iters sl \<noteq> [] \<and> il_broke (last (sl_iters sl)))
        \<and> (sl_iters sl \<noteq> [] \<longrightarrow> il_ctr_after (hd (sl_iters sl)) = 0 \<and> \<not> il_broke (hd (sl_iters sl))))
      (zip (scales reg) (iterations reg)) (scale_logs st)"
proof (rule optimize_logs[OF assms(1)])
  fix s1 s2 :: "'a state" and si
  assume cfg: "same_configuration reg (self s1)" and rs: "run_scale e save_transformed si s1 = Inr s2"
  obtain scale iters where si: "si = (scale, iters)" by (cases si)
  from run_scale_Inr[OF rs[unfolded si]] obtain sz fd grid homo st1 where
    it: "iterate e fd homo (nat iters) (s1\<lparr>tol_ctr := 0, prev_loss := PInf, iter_logs := []\<rparr>) = Inr st1"
    and logs: "scale_logs s2 = scale_logs st1 @ [\<lparr>sl_scale = scale, sl_budget = iters, sl_size_down = sz,
        sl_fixed_image_down = fd, sl_grid = grid, sl_iters = iter_logs st1\<rparr>]"
    by blast
  from iterate_follows_policy[OF assms(2) it] cfg
  have pol: "follows_policy (tolerance_mode reg) (tolerance reg) (max_tolerance_iters reg) 0 PInf (iter_logs st1)"
    "length (iter_logs st1) \<le> nat iters"
    "length (iter_logs st1) < nat iters \<longrightarrow> iter_logs st1 \<noteq> [] \<and> il_broke (last (iter_logs st1))"
    by auto
  from follows_policy_first[OF pol(1)]
  have first: "iter_logs st1 \<noteq> [] \<longrightarrow> il_ctr_after (hd (iter_logs st1)) = 0 \<and> \<not> il_broke (hd (iter_logs st1))"
    by blast
  from follows_policy_broke[OF pol(1)]
  have "0 \<le> max_tolerance_iters reg \<longrightarrow>
      list_all (\<lambda>il. il_broke il = (max_tolerance_iters reg < il_ctr_after il)) (iter_logs st1)"
    by blast
  with pol first logs si
  show "sl_scale (last (scale_logs s2)) = fst si \<and> sl_budget (last (scale_logs s2)) = snd si
        \<and> follows_policy (tolerance_mode reg) (tolerance reg) (max_tolerance_iters reg) 0 PInf (sl_iters (last (scale_logs s2)))
        \<and> (0 \<le> max_tolerance_iters reg \<longrightarrow>
              list_all (\<lambda>il. il_broke il = (max_tolerance_iters reg < il_ctr_after il)) (sl_iters (last (scale_logs s2))))
        \<and> length (sl_iters (last (scale_logs s2))) \<le> nat (snd si)
        \<and> (length (sl_iters (last (scale_logs s2))) < nat (snd si) \<longrightarrow> sl_iters (last (scale_logs s2)) \<noteq> [] \<and> il_broke (last (sl_iters (last (scale_logs s2)))))
        \<and> (sl_iters (last (scale_logs s2)) \<noteq> [] \<longrightarrow> il_ctr_after (hd (sl_iters (last (scale_logs s2)))) = 0 \<and> \<not> il_broke (hd (sl_iters (last (scale_logs s2)))))"
    by simp
qed

theorem convergence_policy_witness:
  "follows_policy ''atol'' (Fin 0.000001) 1 0 PInf (sl_iters (example_logs ! 0))
   \<and> length (sl_iters (example_logs ! 0)) = 3 \<and> sl_budget (example_logs ! 0) = 5
   \<and> il_broke (last (sl_iters (example_logs ! 0)))
   \<and> \<not> il_broke (hd (sl_iters (example_logs ! 0)))
   \<and> list_all (\<lambda>il. il_broke il = (1 < il_ctr_after il)) (sl_iters (example_logs ! 0))
   \<and> follows_policy ''atol'' (Fin 0.000001) 1 0 PInf (sl_iters (example_logs ! 1))
   \<and> length (sl_iters (example_logs ! 1)) = 2 \<and> sl_budget (example_logs ! 1) = 2"
proof -
  note all = convergence_policy[OF example_run_Inr[of False], folded example_run_def example_logs_def]
  have cfg: "tolerance_mode (example_reg (\<lambda>moved fixed. Fin 1) ''atol'') = ''atol''"
    "max_tolerance_iters (example_reg (\<lambda>moved fixed. Fin 1) ''atol'') = 1"
    "tolerance (example_reg (\<lambda>moved fixed. Fin 1) ''atol'') = Fin 0.000001"
    "zip (scales (example_reg (\<lambda>moved fixed. Fin 1) ''atol'')) (iterations (example_reg (\<lambda>moved fixed. Fin 1) ''atol''))
      = [(4, 5), (1, 2)]"
    by (simp_all add: example_reg_def)
  from list_all2_nthD[OF all, of 0] list_all2_nthD[OF all, of 1] example_logs_length
  show ?thesis by (simp add: cfg)
qed

section \<open>The coordinate pipeline\<close>

lemma einsum_ntd_Inr:
  "einsum_ntd m x = Inr y \<longleftrightarrow>
     length (shape m) = 3 \<and> 2 \<le> length (shape x) \<and> shape m ! 0 = shape x ! 0
     \<and> shape m ! 2 = last (shape x)
     \<and> y = \<lparr>shape = butlast (shape x) @ [shape m ! 1],
             elem = (\<lambda>idx. \<Sum>d\<leftarrow>[0..<shape m ! 2].
                          elem m [idx ! 0, last idx, d] * elem x (butlast idx @ [d]))\<rparr>"
  by (auto simp: einsum_ntd_def)

lemma triple_sum_regroup:
  fixes p :: "nat \<Rightarrow> real"
  shows "(\<Sum>a\<leftarrow>[0..<na]. p a * (\<Sum>b\<leftarrow>[0..<nb]. q a b * (\<Sum>c\<leftarrow>[0..<nc]. r b c * h c)))
       = (\<Sum>c\<leftarrow>[0..<nc]. (\<Sum>a\<leftarrow>[0..<na]. p a * (\<Sum>b\<leftarrow>[0..<nb]. q a b * r b c)) * h c)"
proof -
  have "(\<Sum>a\<leftarrow>[0..<na]. p a * (\<Sum>b\<leftarrow>[0..<nb]. q a b * (\<Sum>c\<leftarrow>[0..<nc]. r b c * h c)))
      = (\<Sum>a = 0..<na. \<Sum>b = 0..<nb. \<Sum>c = 0..<nc. p a * (q a b * (r b c * h c)))"
    by (simp add: interv_sum_list_conv_sum_set_nat sum_distrib_left)
  also have "\<dots> = (\<Sum>a = 0..<na. \<Sum>c = 0..<nc. \<Sum>b = 0..<nb. p a * (q a b * (r b c * h c)))"
    by (rule sum.cong[OF refl]) (rule sum.swap)
  also have "\<dots> = (\<Sum>c = 0..<nc. \<Sum>a = 0..<na. \<Sum>b = 0..<nb. p a * (q a b * (r b c * h c)))"
    by (rule sum.swap)
  also have "\<dots> = (\<Sum>c\<leftarrow>[0..<nc]. (\<Sum>a\<leftarrow>[0..<na]. p a * (\<Sum>b\<leftarrow>[0..<nb]. q a b * r b c)) * h c)"
    by (simp add: interv_sum_list_conv_sum_set_nat sum_distrib_left sum_distrib_right mult.assoc)
  finally show ?thesis .
qed

lemma homogeneous_index:
  assumes "2 \<le> length idx"
  shows "(butlast idx @ [d]) ! 0 = idx ! 0" "last (butlast idx @ [d]) = d"
    "butlast (butlast idx @ [d]) = butlast idx"
  using assms by (simp_all add: nth_append nth_butlast)

lemma pipeline_composed:
  assumes "einsum_ntd t2p h = Inr y1" "einsum_ntd aff y1 = Inr y2" "einsum_ntd p2t y2 = Inr y3"
  shows "\<exists>c. einsum_ntd (bmm p2t (bmm aff t2p)) h = Inr c \<and> same_tensor y3 c"
proof -
  note e1 = assms(1)[unfolded einsum_ntd_Inr] and e2 = assms(2)[unfolded einsum_ntd_Inr]
    and e3 = assms(3)[unfolded einsum_ntd_Inr]
  from e1 have h: "2 \<le> length (shape h)" "length (shape t2p) = 3" "shape t2p ! 0 = shape h ! 0"
    "shape t2p ! 2 = last (shape h)" and s1: "shape y1 = butlast (shape h) @ [shape t2p ! 1]"
    by simp_all
  from e2 s1 h(1) have a: "length (shape aff) = 3" "shape aff ! 0 = shape h ! 0"
    "shape aff ! 2 = shape t2p ! 1" and s2: "shape y2 = butlast (shape h) @ [shape aff ! 1]"
    by (simp_all add: nth_append nth_butlast)
  from e3 s2 h(1) have p: "length (shape p2t) = 3" "shape p2t ! 0 = shape h ! 0"
    "shape p2t ! 2 = shape aff ! 1" and s3: "shape y3 = butlast (shape h) @ [shape p2t ! 1]"
    by (simp_all add: nth_append nth_butlast)
  define c where "c = \<lparr>shape = butlast (shape h) @ [shape (bmm p2t (bmm aff t2p)) ! 1],
      elem = (\<lambda>idx. \<Sum>d\<leftarrow>[0..<shape (bmm p2t (bmm aff t2p)) ! 2].
          elem (bmm p2t (bmm aff t2p)) [idx ! 0, last idx, d] * elem h (butlast idx @ [d]))\<rparr>"
  have run: "einsum_ntd (bmm p2t (bmm aff t2p)) h = Inr c"
    unfolding einsum_ntd_Inr c_def using h p by (simp add: bmm_def)
  have shp: "shape y3 = shape c"
    by (simp add: s3 c_def bmm_def)
  have "elem y3 idx = elem c idx" if "idx \<in> set (indices (shape y3))" for idx
  proof -
    from that h(1) have len: "2 \<le> length idx"
      by (simp add: indices_iff s3)
    have y1: "elem y1 j = (\<Sum>d\<leftarrow>[0..<shape t2p ! 2]. elem t2p [j ! 0, last j, d] * elem h (butlast j @ [d]))" for j
      using e1 by simp
    have y2: "elem y2 j = (\<Sum>d\<leftarrow>[0..<shape aff ! 2]. elem aff [j ! 0, last j, d] * elem y1 (butlast j @ [d]))" for j
      using e2 by simp
    have y3: "elem y3 j = (\<Sum>d\<leftarrow>[0..<shape p2t ! 2]. elem p2t [j ! 0, last j, d] * elem y2 (butlast j @ [d]))" for j
      using e3 by simp
    show ?thesis
      unfolding y3 y2 y1 homogeneous_index[OF len]
      by (simp add: c_def bmm_def triple_sum_regroup)
  qed
  then have "same_tensor y3 c"
    by (simp add: same_tensor_def shp list_all_iff)
  with run show ?thesis by blast
qed


lemma drop_last_coord_same:
  assumes "shape a \<noteq> []" "same_tensor a b"
  shows "same_tensor (drop_last_coord a) (drop_last_coord b)"
proof -
  from assms(2) have shp: "shape a = shape b"
    and el: "\<And>idx. idx \<in> set (indices (shape a)) \<Longrightarrow> elem a idx = elem b idx"
    by (simp_all add: same_tensor_def list_all_iff)
  have "idx \<in> set (indices (shape a))"
    if "idx \<in> set (indices (butlast (shape a) @ [last (shape a) - 1]))" for idx
  proof -
    from assms(1) have len: "length (butlast (shape a) @ [last (shape a) - 1]) = length (shape a)"
      by simp
    have "(butlast (shape a) @ [last (shape a) - 1]) ! i \<le> shape a ! i" if "i < length (shape a)" for i
    proof (cases "i = length (shape a) - 1")
      case True
      with assms(1) show ?thesis by (simp add: nth_append last_conv_nth)
    next
      case False
      with that have "i < length (shape a) - 1" by simp
      then show ?thesis by (simp add: nth_append nth_butlast)
    qed
    with that len show ?thesis
      unfolding indices_iff by (metis le_trans not_le)
  qed
  with el shp show ?thesis
    by (simp add: same_tensor_def drop_last_coord_def list_all_iff)
qed

lemma list_all2_const: "list_all2 (\<lambda>x. Q) xs ys \<Longrightarrow> \<forall>y\<in>set ys. Q y"
  by (auto simp: list_all2_conv_all_nth in_set_conv_nth)

lemma iteration_pipeline:
  assumes it: "iteration e fd homo s = Inr (s1, b)" and cfg: "same_configuration reg (self s)"
    and h0: "homogenize grid = Inr homo0"
    and h: "einsum_ntd (torch2phy (fixed_images reg)) homo0 = Inr homo"
  shows "\<exists>il. iter_logs s1 = iter_logs s @ [il]
    \<and> coordinate_pipeline grid (torch2phy (fixed_images reg)) (il_affinemat il)
          (phy2torch (moving_images reg)) = Inr (il_coords il)
    \<and> grid_sample (arrays (moving_images reg)) (il_coords il) = Inr (il_moved il)
    \<and> (\<exists>c. composed_pipeline grid (torch2phy (fixed_images reg)) (il_affinemat il)
              (phy2torch (moving_images reg)) = Inr c \<and> same_tensor (il_coords il) c)"
proof -
  from cfg have mv: "moving_images (self s) = moving_images reg"
    by (simp add: same_configuration_def)
  from iteration_log[OF it] obtain il c1 c2 where
    il: "iter_logs s1 = iter_logs s @ [il]"
    and c1: "einsum_ntd (il_affinemat il) homo = Inr c1"
    and c2: "einsum_ntd (phy2torch (moving_images reg)) c1 = Inr c2"
    and co: "il_coords il = drop_last_coord c2"
    and gs: "grid_sample (arrays (moving_images reg)) (il_coords il) = Inr (il_moved il)"
    unfolding mv by blast
  have pipe: "coordinate_pipeline grid (torch2phy (fixed_images reg)) (il_affinemat il)
          (phy2torch (moving_images reg)) = Inr (il_coords il)"
    by (simp add: coordinate_pipeline_def bind_err_def h0 h c1 c2 co)
  from pipeline_composed[OF h c1 c2] obtain c where
    c: "einsum_ntd (bmm (phy2torch (moving_images reg)) (bmm (il_affinemat il) (torch2phy (fixed_images reg)))) homo0 = Inr c"
    "same_tensor c2 c"
    by blast
  from c2 have "shape c2 \<noteq> []" by (auto simp: einsum_ntd_Inr)
  from drop_last_coord_same[OF this c(2)] c(1)
  have "composed_pipeline grid (torch2phy (fixed_images reg)) (il_affinemat il)
              (phy2torch (moving_images reg)) = Inr (drop_last_coord c)
        \<and> same_tensor (il_coords il) (drop_last_coord c)"
    by (simp add: composed_pipeline_def bind_err_def h0 co)
  with il pipe gs show ?thesis by blast
qed

text \<open>
  C1. In every iteration of every scale of a run of \<^verbatim>\<open>optimize\<close>, the coordinates
  handed to \<^verbatim>\<open>F.grid_sample\<close> are the coordinate pipeline applied to the grid of the
  scale (the \<^verbatim>\<open>F.affine_grid\<close> of the identity for the downsampled fixed image): the
  grid made homogeneous, then the fixed normalized-to-physical transform, then the
  affine matrix read in this iteration, then the moving physical-to-normalized
  transform, then the homogeneous coordinate dropped. They have the entries that the
  one matrix \<open>moving_p2t \<cdot> affine \<cdot> fixed_t2p\<close> gives on the homogeneous grid.
\<close>

theorem sampling_coordinates:
  assumes "optimize e reg save_transformed = Inr (ret, st)"
  shows "\<forall>sl\<in>set (scale_logs st).
      affine_grid (eye_batch (batch_count (fixed_images reg)) (dims reg))
          (shape (sl_fixed_image_down sl)) = Inr (sl_grid sl)
      \<and> (\<forall>il\<in>set (sl_iters sl).
          coordinate_pipeline (sl_grid sl) (torch2phy (fixed_images reg)) (il_affinemat il)
              (phy2torch (moving_images reg)) = Inr (il_coords il)
          \<and> grid_sample (arrays (moving_images reg)) (il_coords il) = Inr (il_moved il)
          \<and> (\<exists>c. composed_pipeline (sl_grid sl) (torch2phy (fixed_images reg)) (il_affinemat il)
                  (phy2torch (moving_images reg)) = Inr c \<and> same_tensor (il_coords il) c))"
proof (rule list_all2_const, rule optimize_logs[OF assms])
  fix s1 s2 :: "'a state" and si
  assume cfg: "same_configuration reg (self s1)" and rs: "run_scale e save_transformed si s1 = Inr s2"
  let ?P = "\<lambda>grid il. coordinate_pipeline grid (torch2phy (fixed_images reg)) (il_affinemat il)
              (phy2torch (moving_images reg)) = Inr (il_coords il)
          \<and> grid_sample (arrays (moving_images reg)) (il_coords il) = Inr (il_moved il)
          \<and> (\<exists>c. composed_pipeline grid (torch2phy (fixed_images reg)) (il_affinemat il)
                  (phy2torch (moving_images reg)) = Inr c \<and> same_tensor (il_coords il) c)"
  obtain scale iters where si: "si = (scale, iters)" by (cases si)
  from cfg have fx: "fixed_images (self s1) = fixed_images reg" "dims (self s1) = dims reg"
    by (simp_all add: same_configuration_def)
  from run_scale_Inr[OF rs[unfolded si]] obtain sz fd grid homo0 homo st1 where
    ag: "affine_grid (eye_batch (batch_count (fixed_images reg)) (dims reg)) (shape fd) = Inr grid"
    and h0: "homogenize grid = Inr homo0"
    and h: "einsum_ntd (torch2phy (fixed_images reg)) homo0 = Inr homo"
    and it: "iterate e fd homo (nat iters) (s1\<lparr>tol_ctr := 0, prev_loss := PInf, iter_logs := []\<rparr>) = Inr st1"
    and logs: "scale_logs s2 = scale_logs st1 @ [\<lparr>sl_scale = scale, sl_budget = iters, sl_size_down = sz,
        sl_fixed_image_down = fd, sl_grid = grid, sl_iters = iter_logs st1\<rparr>]"
    unfolding fx by blast
  have "same_configuration reg (self st1)
      \<and> (\<exists>ils. iter_logs st1 = iter_logs (s1\<lparr>tol_ctr := 0, prev_loss := PInf, iter_logs := []\<rparr>) @ ils
            \<and> list_all (?P grid) ils)"
  proof (rule iterate_invariant[where I = "\<lambda>x. same_configuration reg (self x)", OF _ it])
    fix x x' b
    assume "same_configuration reg (self x)" "iteration e fd homo x = Inr (x', b)"
    with iteration_pipeline[OF this(2,1) h0 h] iteration_frame[OF this(2,1)]
    show "same_configuration reg (self x') \<and> (\<exists>il. iter_logs x' = iter_logs x @ [il] \<and> ?P grid il)"
      by blast
  next
    show "same_configuration reg (self (s1\<lparr>tol_ctr := 0, prev_loss := PInf, iter_logs := []\<rparr>))"
      using cfg by simp
  qed
  then have "list_all (?P grid) (iter_logs st1)" by auto
  with ag logs
  show "affine_grid (eye_batch (batch_count (fixed_images reg)) (dims reg))
          (shape (sl_fixed_image_down (last (scale_logs s2)))) = Inr (sl_grid (last (scale_logs s2)))
      \<and> (\<forall>il\<in>set (sl_iters (last (scale_logs s2))). ?P (sl_grid (last (scale_logs s2))) il)"
    by (simp add: list_all_iff)
qed

text \<open>
  In the third iteration of the first scale of the example run the parameter has been
  halved twice, and the corner \<open>(-1, -1)\<close> of the grid is sampled at \<open>(-1/4, -1/4)\<close>.
\<close>

lemma example_coords_value:
  "elem (il_coords (sl_iters (example_logs ! 0) ! 2)) [0, 0, 0, 0] = - 1 / 4
   \<and> elem (il_coords (sl_iters (example_logs ! 0) ! 2)) [0, 1, 1, 1] = 1 / 4
   \<and> shape (il_coords (sl_iters (example_logs ! 0) ! 2)) = [1, 2, 2, 2]"
  by (simp add: example_logs_def example_run_def run_defs numeral_nat base_coord_def split: prod.splits)


theorem sampling_coordinates_witness:
  "coordinate_pipeline (sl_grid (example_logs ! 0)) (square_eye 1 2)
       (il_affinemat (sl_iters (example_logs ! 0) ! 2)) (square_eye 1 2)
     = Inr (il_coords (sl_iters (example_logs ! 0) ! 2))
   \<and> grid_sample (arrays example_images) (il_coords (sl_iters (example_logs ! 0) ! 2))
     = Inr (il_moved (sl_iters (example_logs ! 0) ! 2))
   \<and> elem (il_coords (sl_iters (example_logs ! 0) ! 2)) [0, 0, 0, 0] = - 1 / 4"
proof -
  note all = sampling_coordinates[OF example_run_Inr[of False], folded example_run_def example_logs_def]
  have sl: "example_logs ! 0 \<in> set example_logs"
    using example_logs_length by simp
  have il: "sl_iters (example_logs ! 0) ! 2 \<in> set (sl_iters (example_logs ! 0))"
    using example_logs_length by simp
  from all sl il example_coords_value show ?thesis
    by (simp add: example_reg_def example_images_def)
qed

section \<open>The downsampled fixed image\<close>

lemma run_fixed_image:
  assumes "optimize e reg save_transformed = Inr (ret, st)"
  shows "list_all2 (\<lambda>si sl. sl_scale sl = fst si
        \<and> size_down (min_img_size e) (fst si) (drop 2 (shape (arrays (fixed_images reg))))
            = Inr (sl_size_down sl)
        \<and> interpolate (interp_values e) (arrays (fixed_images reg)) (sl_size_down sl)
            (interpolate_mode (fixed_images reg)) = Inr (sl_fixed_image_down sl))
      (zip (scales reg) (iterations reg)) (scale_logs st)"
proof (rule optimize_logs[OF assms])
  fix s1 s2 :: "'a state" and si
  assume cfg: "same_configuration reg (self s1)" and rs: "run_scale e save_transformed si s1 = Inr s2"
  obtain scale iters where si: "si = (scale, iters)" by (cases si)
  from cfg have fx: "fixed_images (self s1) = fixed_images reg"
    by (simp add: same_configuration_def)
  from run_scale_Inr[OF rs[unfolded si]] obtain sz fd grid homo0 homo st1 where
    "size_down (min_img_size e) scale (drop 2 (shape (arrays (fixed_images reg)))) = Inr sz"
    "interpolate (interp_values e) (arrays (fixed_images reg)) sz
        (interpolate_mode (fixed_images reg)) = Inr fd"
    "iterate e fd homo (nat iters) (s1\<lparr>tol_ctr := 0, prev_loss := PInf, iter_logs := []\<rparr>) = Inr st1"
    "scale_logs s2 = scale_logs st1 @ [\<lparr>sl_scale = scale, sl_budget = iters, sl_size_down = sz,
        sl_fixed_image_down = fd, sl_grid = grid, sl_iters = iter_logs st1\<rparr>]"
    unfolding fx by blast
  then show "sl_scale (last (scale_logs s2)) = fst si
        \<and> size_down (min_img_size e) (fst si) (drop 2 (shape (arrays (fixed_images reg))))
            = Inr (sl_size_down (last (scale_logs s2)))
        \<and> interpolate (interp_values e) (arrays (fixed_images reg)) (sl_size_down (last (scale_logs s2)))
            (interpolate_mode (fixed_images reg)) = Inr (sl_fixed_image_down (last (scale_logs s2)))"
    by (simp add: si)
qed

text \<open>
  C3, as amended. At the start of every scale of a run of \<^verbatim>\<open>optimize\<close>, the
  downsampled fixed image is the corner-aligned \<^verbatim>\<open>F.interpolate\<close> of the
  full-resolution fixed image itself to \<open>size_down\<close>, in the interpolation mode of the
  image container: interpolation alone. No smoothing precedes it, and \<^verbatim>\<open>downsample\<close>
  is not called.
\<close>

theorem fixed_image_by_interpolation_alone:
  assumes "optimize e reg save_transformed = Inr (ret, st)"
  shows "\<forall>sl\<in>set (scale_logs st).
      interpolate (interp_values e) (arrays (fixed_images reg)) (sl_size_down sl)
          (interpolate_mode (fixed_images reg)) = Inr (sl_fixed_image_down sl)"
  by (rule list_all2_const[of _ "zip (scales reg) (iterations reg)"])
    (rule list_all2_mono[OF run_fixed_image[OF assms]], simp)

lemma example_size_down: "sl_size_down (example_logs ! 0) = [2, 2] \<and> sl_scale (example_logs ! 0) = 4"
  using arg_cong[OF example_logs_summary, of "\<lambda>xs. xs ! 0"] example_logs_length by simp

theorem fixed_image_by_interpolation_alone_witness:
  "interpolate linear_values (arrays example_images) [2, 2] ''bilinear''
     = Inr (sl_fixed_image_down (example_logs ! 0))"
proof -
  note all = fixed_image_by_interpolation_alone[OF example_run_Inr[of False],
      folded example_run_def example_logs_def]
  have "example_logs ! 0 \<in> set example_logs"
    using example_logs_length by simp
  from bspec[OF all this] example_size_down show ?thesis
    by (simp add: example_reg_def example_images_def example_env_def)
qed

lemma example_fixed_image_down:
  "sl_fixed_image_down (example_logs ! 0)
    = \<lparr>shape = [1, 1, 2, 2], elem = linear_values ''bilinear'' (arrays example_images) [2, 2]\<rparr>"
proof -
  have "example_logs ! 0 \<in> set example_logs"
    using example_logs_length by simp
  with list_all2_const[OF list_all2_mono[OF run_fixed_image[OF example_run_Inr[of False]]],
      of "\<lambda>sl. interpolate (interp_values example_env)
            (arrays (fixed_images (example_reg (\<lambda>moved fixed. Fin 1) ''atol''))) (sl_size_down sl)
            (interpolate_mode (fixed_images (example_reg (\<lambda>moved fixed. Fin 1) ''atol'')))
          = Inr (sl_fixed_image_down sl)"]
  have "interpolate (interp_values example_env)
            (arrays (fixed_images (example_reg (\<lambda>moved fixed. Fin 1) ''atol''))) (sl_size_down (example_logs ! 0))
            (interpolate_mode (fixed_images (example_reg (\<lambda>moved fixed. Fin 1) ''atol'')))
          = Inr (sl_fixed_image_down (example_logs ! 0))"
    by (simp add: example_logs_def example_run_def)
  then show ?thesis
    by (simp add: example_size_down example_reg_def example_images_def example_env_def interpolate_def)
qed

text \<open>
  The claim as stated fails on the example run: at the first scale (factor 4, target
  size 2 by 2) the entry of the downsampled fixed image at row 1 and column 1 is the
  corner entry 9 of the fixed image, while \<^verbatim>\<open>downsample\<close> to the same size, with the
  three-tap kernel, gives 9/2 there.
\<close>

theorem fixed_image_by_interpolation_alone_counterexample:
  "sl_size_down (example_logs ! 0) = [2, 2]
   \<and> elem (sl_fixed_image_down (example_logs ! 0)) [0, 0, 1, 1] = 9
   \<and> map_sum id (\<lambda>d. elem d [0, 0, 1, 1])
       (downsample three_tap (filter_axes 0) linear_values (arrays example_images) [2, 2]
          ''bilinear'' None None) = Inr (9 / 2)"
proof -
  have "linear_values ''bilinear'' (arrays example_images) [2, 2] [0, 0, 1, 1] = 9"
    by (simp add: linear_values_def axis_taps_def padded_read_def in_bounds_def example_images_def
        Let_def upt_rec)
  then have "elem (sl_fixed_image_down (example_logs ! 0)) [0, 0, 1, 1] = 9"
    by (simp add: example_fixed_image_down)
  moreover have "map_sum id (\<lambda>d. elem d [0, 0, 1, 1])
       (downsample three_tap (filter_axes 0) linear_values (arrays example_images) [2, 2]
          ''bilinear'' None None) = Inr (9 / 2)"
    by (simp add: downsample_def three_tap_def conv_nd_def axis_kernel_def tensor1_def interpolate_def
      linear_values_def axis_taps_def padded_read_def in_bounds_def bind_err_def example_images_def Let_def
      upt_rec)
  ultimately show ?thesis using example_size_down by simp
qed

section \<open>The target size of a scale\<close>

lemma trunc_div_floor: "0 < k \<Longrightarrow> trunc_div s k = \<lfloor>real s / real_of_int k\<rfloor>"
proof -
  assume "0 < k"
  have "\<lfloor>real_of_int (int s) / real_of_int k\<rfloor> = int s div k"
    by (rule floor_divide_of_int_eq)
  with \<open>0 < k\<close> show ?thesis by (simp add: trunc_div_def)
qed

lemma size_down_floor:
  assumes "0 < scale" "size_down m scale fixed_size = Inr sz"
  shows "sz = map (\<lambda>s. max \<lfloor>real s / real_of_int scale\<rfloor> m) fixed_size"
  using assms by (auto simp: size_down_def trunc_div_floor split: if_splits)

lemma interpolate_shape:
  assumes "interpolate vals inp sz mode = Inr fd"
  shows "drop 2 (shape fd) = map nat sz \<and> list_all (\<lambda>t. 0 < t) sz"
  using assms
  by (auto simp: interpolate_def list_all_iff list_ex_iff not_le split: if_splits)

lemma effective_factor:
  assumes "0 < scale" "0 < m" "\<lfloor>real s / real_of_int scale\<rfloor> < m"
  shows "real s / real_of_int m < real_of_int scale"
proof -
  from assms(3) have "real s / real_of_int scale < real_of_int m"
    by (simp add: floor_less_iff)
  with assms(1) have "real s < real_of_int m * real_of_int scale"
    by (simp add: pos_divide_less_eq)
  with assms(2) show ?thesis
    by (simp add: pos_divide_less_eq mult.commute)
qed

text \<open>
  C10. In a run of \<^verbatim>\<open>optimize\<close>, at every scale of the schedule the spatial shape of
  the downsampled fixed image is \<open>size_down\<close>, and every spatial extent of it is at
  least \<^verbatim>\<open>MIN_IMG_SIZE\<close>. For a positive factor, the target size along an axis of
  extent \<open>s\<close> is \<open>max(floor(s / scale), MIN_IMG_SIZE)\<close>; and on every axis where
  \<open>floor(s / scale)\<close> is below \<^verbatim>\<open>MIN_IMG_SIZE\<close>, the target size is \<^verbatim>\<open>MIN_IMG_SIZE\<close>
  and the effective factor \<open>s / target\<close> is smaller than the requested factor.
\<close>

theorem size_down_bounded_below:
  assumes "optimize e reg save_transformed = Inr (ret, st)"
  shows "list_all2 (\<lambda>si sl.
        drop 2 (shape (sl_fixed_image_down sl)) = map nat (sl_size_down sl)
        \<and> list_all (\<lambda>x. min_img_size e \<le> int x) (drop 2 (shape (sl_fixed_image_down sl)))
        \<and> (0 < fst si \<longrightarrow>
            sl_size_down sl = map (\<lambda>s. max \<lfloor>real s / real_of_int (fst si)\<rfloor> (min_img_size e))
                                  (drop 2 (shape (arrays (fixed_images reg))))
            \<and> list_all2 (\<lambda>s t. \<lfloor>real s / real_of_int (fst si)\<rfloor> < min_img_size e \<longrightarrow>
                    t = min_img_size e \<and> real s / real_of_int t < real_of_int (fst si))
                 (drop 2 (shape (arrays (fixed_images reg)))) (sl_size_down sl)))
      (zip (scales reg) (iterations reg)) (scale_logs st)"
proof (rule list_all2_mono[OF run_fixed_image[OF assms]])
  fix si :: "int \<times> int" and sl
  let ?fs = "drop 2 (shape (arrays (fixed_images reg)))"
  assume "sl_scale sl = fst si
        \<and> size_down (min_img_size e) (fst si) ?fs = Inr (sl_size_down sl)
        \<and> interpolate (interp_values e) (arrays (fixed_images reg)) (sl_size_down sl)
            (interpolate_mode (fixed_images reg)) = Inr (sl_fixed_image_down sl)"
  then have sd: "size_down (min_img_size e) (fst si) ?fs = Inr (sl_size_down sl)"
    and ip: "interpolate (interp_values e) (arrays (fixed_images reg)) (sl_size_down sl)
            (interpolate_mode (fixed_images reg)) = Inr (sl_fixed_image_down sl)"
    by simp_all
  from interpolate_shape[OF ip] have shp: "drop 2 (shape (sl_fixed_image_down sl)) = map nat (sl_size_down sl)"
    and pos: "list_all (\<lambda>t. 0 < t) (sl_size_down sl)"
    by simp_all
  from sd have eq0: "sl_size_down sl = map (\<lambda>s. max (trunc_div s (fst si)) (min_img_size e)) ?fs"
    by (auto simp: size_down_def split: if_splits)
  have ge: "list_all (\<lambda>t. min_img_size e \<le> t) (sl_size_down sl)"
    by (subst eq0) (simp add: list_all_iff)
  from pos ge have lower: "list_all (\<lambda>x. min_img_size e \<le> int x) (drop 2 (shape (sl_fixed_image_down sl)))"
    by (auto simp: shp list_all_iff)
  have fl: "sl_size_down sl = map (\<lambda>s. max \<lfloor>real s / real_of_int (fst si)\<rfloor> (min_img_size e)) ?fs
        \<and> list_all2 (\<lambda>s t. \<lfloor>real s / real_of_int (fst si)\<rfloor> < min_img_size e \<longrightarrow>
                    t = min_img_size e \<and> real s / real_of_int t < real_of_int (fst si))
                 ?fs (sl_size_down sl)" if sc: "0 < fst si"
  proof -
    note eq = size_down_floor[OF sc sd]
    have "t = min_img_size e \<and> real s / real_of_int t < real_of_int (fst si)"
      if "(s, t) \<in> set (zip ?fs (sl_size_down sl))" "\<lfloor>real s / real_of_int (fst si)\<rfloor> < min_img_size e"
      for s t
    proof -
      from that(1) have t: "t \<in> set (sl_size_down sl)" by (rule set_zip_rightD)
      from that(1) have "t = max \<lfloor>real s / real_of_int (fst si)\<rfloor> (min_img_size e)"
        by (subst (asm) eq) (auto simp: zip_map2 zip_same_conv_map)
      with that(2) have tm: "t = min_img_size e" by simp
      from t pos have "0 < t" by (simp add: list_all_iff)
      with tm effective_factor[OF sc _ that(2)] show ?thesis by simp
    qed
    then have "list_all2 (\<lambda>s t. \<lfloor>real s / real_of_int (fst si)\<rfloor> < min_img_size e \<longrightarrow>
                    t = min_img_size e \<and> real s / real_of_int t < real_of_int (fst si))
                 ?fs (sl_size_down sl)"
      unfolding list_all2_iff by (subst eq) auto
    with eq show ?thesis by simp
  qed
  from shp lower fl
  show "drop 2 (shape (sl_fixed_image_down sl)) = map nat (sl_size_down sl)
        \<and> list_all (\<lambda>x. min_img_size e \<le> int x) (drop 2 (shape (sl_fixed_image_down sl)))
        \<and> (0 < fst si \<longrightarrow>
            sl_size_down sl = map (\<lambda>s. max \<lfloor>real s / real_of_int (fst si)\<rfloor> (min_img_size e)) ?fs
            \<and> list_all2 (\<lambda>s t. \<lfloor>real s / real_of_int (fst si)\<rfloor> < min_img_size e \<longrightarrow>
                    t = min_img_size e \<and> real s / real_of_int t < real_of_int (fst si))
                 ?fs (sl_size_down sl))"
    by blast
qed


theorem size_down_bounded_below_witness:
  "sl_scale (example_logs ! 0) = 4
   \<and> sl_size_down (example_logs ! 0) = map (\<lambda>s. max \<lfloor>real s / 4\<rfloor> 2) [4, 4]
   \<and> drop 2 (shape (sl_fixed_image_down (example_logs ! 0))) = [2, 2]
   \<and> list_all (\<lambda>x. 2 \<le> int x) (drop 2 (shape (sl_fixed_image_down (example_logs ! 0))))
   \<and> list_all2 (\<lambda>s t. t = 2 \<and> real s / real_of_int t < 4) [4, 4] (sl_size_down (example_logs ! 0))"
proof -
  note all = size_down_bounded_below[OF example_run_Inr[of False],
      folded example_run_def example_logs_def]
  have cfg: "zip (scales (example_reg (\<lambda>moved fixed. Fin 1) ''atol''))
        (iterations (example_reg (\<lambda>moved fixed. Fin 1) ''atol'')) = [(4, 5), (1, 2)]"
    "drop 2 (shape (arrays (fixed_images (example_reg (\<lambda>moved fixed. Fin 1) ''atol'')))) = [4, 4]"
    "min_img_size example_env = 2"
    by (simp_all add: example_reg_def example_images_def example_env_def)
  from list_all2_nthD[OF all, of 0] example_size_down show ?thesis
    by (simp add: cfg)
qed

section \<open>The homogeneous row\<close>

lemma get_affine_matrix_homogeneous:
  assumes "shape (affine r) = [n, d, d + 1]" "row r = homogeneous_row n d"
  shows "\<exists>m. get_affine_matrix r = Inr m \<and> homogeneous_matrix n d m"
  using assms
  by (simp add: get_affine_matrix_def cat2_def bind_err_def homogeneous_row_def
      homogeneous_matrix_def list_all_iff)

lemma init_shapes:
  assumes "init e sc its fixed moving loss opt lr mom tol mx mode init_rigid = Inr reg"
    and "init_rigid = None
         \<or> (\<exists>m. init_rigid = Some m \<and> shape m = [batch_count fixed, image_dims moving, image_dims moving + 1])"
  shows "shape (affine reg) = [batch_count fixed, image_dims moving, image_dims moving + 1]
    \<and> row reg = homogeneous_row (batch_count fixed) (image_dims moving)"
  using assms
  by (auto simp: init_def bind_err_Inr Let_def eye_batch_def split: if_splits)

text \<open>
  C6. For a registration object that construction returned, with no initial matrix or
  one of shape \<open>[batch, dims, dims + 1]\<close>: every matrix that \<^verbatim>\<open>get_affine_matrix\<close>
  returns during a run of \<^verbatim>\<open>optimize\<close> (one read per iteration), before the run and
  after it, has shape \<open>[batch, dims + 1, dims + 1]\<close> and the last row \<open>[0, ..., 0, 1]\<close>
  in every batch item. The row is a field of its own, which the optimizer step does
  not write: after the run it is still the row construction made.
\<close>

theorem affine_matrix_homogeneous:
  assumes "init e sc its fixed moving loss opt lr mom tol mx mode init_rigid = Inr reg"
    and "init_rigid = None
         \<or> (\<exists>m. init_rigid = Some m \<and> shape m = [batch_count fixed, image_dims moving, image_dims moving + 1])"
    and "optimize e reg save_transformed = Inr (ret, st)"
  shows "(\<forall>sl\<in>set (scale_logs st). \<forall>il\<in>set (sl_iters sl).
            homogeneous_matrix (batch_count fixed) (image_dims moving) (il_affinemat il))
    \<and> (\<exists>m. get_affine_matrix reg = Inr m
            \<and> homogeneous_matrix (batch_count fixed) (image_dims moving) m)
    \<and> (\<exists>m. get_affine_matrix (self st) = Inr m
            \<and> homogeneous_matrix (batch_count fixed) (image_dims moving) m)
    \<and> row (self st) = homogeneous_row (batch_count fixed) (image_dims moving)"
proof -
  let ?n = "batch_count fixed" and ?d = "image_dims moving"
  note shp = init_shapes[OF assms(1,2)]
  have hom: "\<exists>m. get_affine_matrix r = Inr m \<and> homogeneous_matrix ?n ?d m"
    if "same_configuration reg r" for r :: "'a registration"
    using that shp by (intro get_affine_matrix_homogeneous) (simp_all add: same_configuration_def)
  have logs: "list_all2 (\<lambda>si sl. \<forall>il\<in>set (sl_iters sl). homogeneous_matrix ?n ?d (il_affinemat il))
      (zip (scales reg) (iterations reg)) (scale_logs st)"
  proof (rule optimize_logs[OF assms(3)])
    fix s1 s2 :: "'a state" and si
    assume cfg: "same_configuration reg (self s1)" and rs: "run_scale e save_transformed si s1 = Inr s2"
    obtain scale iters where si: "si = (scale, iters)" by (cases si)
    from run_scale_Inr[OF rs[unfolded si]] obtain sz fd grid homo0 homo st1 where
      it: "iterate e fd homo (nat iters) (s1\<lparr>tol_ctr := 0, prev_loss := PInf, iter_logs := []\<rparr>) = Inr st1"
      and lg: "scale_logs s2 = scale_logs st1 @ [\<lparr>sl_scale = scale, sl_budget = iters, sl_size_down = sz,
          sl_fixed_image_down = fd, sl_grid = grid, sl_iters = iter_logs st1\<rparr>]"
      by blast
    have "same_configuration reg (self st1)
        \<and> (\<exists>ils. iter_logs st1 = iter_logs (s1\<lparr>tol_ctr := 0, prev_loss := PInf, iter_logs := []\<rparr>) @ ils
              \<and> list_all (\<lambda>il. homogeneous_matrix ?n ?d (il_affinemat il)) ils)"
    proof (rule iterate_invariant[where I = "\<lambda>x. same_configuration reg (self x)", OF _ it])
      fix x x' b
      assume c: "same_configuration reg (self x)" and i: "iteration e fd homo x = Inr (x', b)"
      from iteration_log[OF i] obtain il where
        "iter_logs x' = iter_logs x @ [il]" "get_affine_matrix (self x) = Inr (il_affinemat il)"
        by blast
      with hom[OF c] iteration_frame[OF i c]
      show "same_configuration reg (self x')
          \<and> (\<exists>il. iter_logs x' = iter_logs x @ [il] \<and> homogeneous_matrix ?n ?d (il_affinemat il))"
        by auto
    next
      show "same_configuration reg (self (s1\<lparr>tol_ctr := 0, prev_loss := PInf, iter_logs := []\<rparr>))"
        using cfg by simp
    qed
    with lg show "\<forall>il\<in>set (sl_iters (last (scale_logs s2))). homogeneous_matrix ?n ?d (il_affinemat il)"
      by (auto simp: list_all_iff)
  qed
  have fin: "same_configuration reg (self st)"
    using run_scales_logs[where Q = "\<lambda>si sl. True", OF _ optimize_Inr(1)[OF assms(3)]]
    by (simp add: initial_state_def same_configuration_refl)
  from list_all2_const[OF logs] hom[OF same_configuration_refl] hom[OF fin] fin shp
  show ?thesis by (simp add: same_configuration_def)
qed

text \<open>
  In the third iteration of the first scale of the example run the optimizer has
  halved the parameter twice, and the last row of the matrix read is unchanged.
\<close>

lemma example_affinemat_value:
  "elem (il_affinemat (sl_iters (example_logs ! 0) ! 2)) [0, 0, 0] = 1 / 4
   \<and> elem (il_affinemat (sl_iters (example_logs ! 0) ! 2)) [0, 2, 2] = 1"
  by (simp add: example_logs_def example_run_def run_defs numeral_nat split: prod.splits)

theorem affine_matrix_homogeneous_witness:
  "homogeneous_matrix 1 2 (il_affinemat (sl_iters (example_logs ! 0) ! 2))
   \<and> elem (il_affinemat (sl_iters (example_logs ! 0) ! 2)) [0, 0, 0] = 1 / 4
   \<and> (\<exists>m. get_affine_matrix (self (snd (projr (example_run False)))) = Inr m \<and> homogeneous_matrix 1 2 m)"
proof -
  have i: "init example_env [4, 1] [5, 2] example_images example_images (\<lambda>moved fixed. Fin 1)
      ''SGD'' 0.1 0 (Fin 0.000001) 1 ''atol'' None = Inr (example_reg (\<lambda>moved fixed. Fin 1) ''atol'')"
    by (simp add: run_defs)
  note all = affine_matrix_homogeneous[OF i _ example_run_Inr[of False],
      folded example_run_def example_logs_def]
  have sl: "example_logs ! 0 \<in> set example_logs"
    using example_logs_length by simp
  have il: "sl_iters (example_logs ! 0) ! 2 \<in> set (sl_iters (example_logs ! 0))"
    using example_logs_length by simp
  from all sl il example_affinemat_value show ?thesis
    by (simp add: example_images_def)
qed

section \<open>What optimize returns\<close>

text \<open>
  A run on a well-shaped registration raises nothing: every torch call finds the
  shapes it needs, the division of \<^verbatim>\<open>rtol\<close> mode finds no zero loss, and the moved
  image is bound when it is appended.
\<close>

lemma same_configurationD:
  assumes "same_configuration a b"
  shows "scales b = scales a" "iterations b = iterations a" "fixed_images b = fixed_images a"
    "moving_images b = moving_images a" "loss_fn b = loss_fn a" "tolerance b = tolerance a"
    "max_tolerance_iters b = max_tolerance_iters a" "tolerance_mode b = tolerance_mode a"
    "dims b = dims a" "row b = row a" "shape (affine b) = shape (affine a)"
  using assms by (simp_all add: same_configuration_def)

lemma convergence_check_succeeds:
  assumes "mode = ''rtol'' \<longrightarrow> prev \<noteq> Fin 0"
  shows "\<exists>r. convergence_check mode tol max_iters prev cur ctr = Inr r"
proof (cases "mode = ''rtol''")
  case True
  with assms have "prev \<noteq> Fin 0" by simp
  then obtain q where "py_truediv (py_sub prev cur) prev = Inr q"
    by (cases prev; cases "py_sub prev cur") auto
  with True show ?thesis
    by (cases "py_lt q tol") (auto simp: convergence_check_def bind_err_def)
next
  case False
  then show ?thesis by (auto simp: convergence_check_def)
qed

lemma grid_sample_succeeds:
  assumes "length (shape inp) = d + 2" "d = 2 \<or> d = 3" "length (shape g) = d + 2"
    "shape g ! 0 = shape inp ! 0" "last (shape g) = d"
  shows "\<exists>r. grid_sample inp g = Inr r"
  using assms by (simp add: grid_sample_def Let_def)

lemma get_affine_matrix_shape:
  assumes "shape (affine r) = [n, d, d + 1]" "shape (row r) = [n, 1, d + 1]"
  shows "\<exists>m. get_affine_matrix r = Inr m \<and> shape m = [n, d + 1, d + 1]"
  using assms by (simp add: get_affine_matrix_def cat2_def bind_err_def)

lemma einsum_ntd_succeeds:
  assumes "shape m = [n, t, k]" "2 \<le> length (shape x)" "shape x ! 0 = n" "last (shape x) = k"
  shows "\<exists>y. einsum_ntd m x = Inr y \<and> shape y = butlast (shape x) @ [t]"
  using assms by (simp add: einsum_ntd_def)

lemma iteration_succeeds:
  assumes ws: "well_shaped e reg" and cfg: "same_configuration reg (self s)"
    and homo: "length (shape homo) = dims reg + 2" "shape homo ! 0 = batch_count (fixed_images reg)"
      "last (shape homo) = dims reg + 1"
    and nz: "tolerance_mode reg = ''rtol'' \<longrightarrow> prev_loss s \<noteq> Fin 0"
  shows "\<exists>r. iteration e fd homo s = Inr r"
proof -
  let ?n = "batch_count (fixed_images reg)" and ?d = "dims reg"
  note eqs = same_configurationD[OF cfg]
  from ws have w: "shape (affine reg) = [?n, ?d, ?d + 1]" "shape (row reg) = [?n, 1, ?d + 1]"
    "shape (phy2torch (moving_images reg)) = [?n, ?d + 1, ?d + 1]"
    "length (shape (arrays (moving_images reg))) = ?d + 2"
    "shape (arrays (moving_images reg)) ! 0 = ?n" "?d = 2 \<or> ?d = 3"
    by (simp_all add: well_shaped_def Let_def)
  from get_affine_matrix_shape[of "self s" ?n ?d] w(1,2)
  obtain m where m: "get_affine_matrix (self s) = Inr m" "shape m = [?n, ?d + 1, ?d + 1]"
    unfolding eqs by blast
  from homo(1) have h2: "2 \<le> length (shape homo)" by simp
  from einsum_ntd_succeeds[OF m(2) h2 homo(2,3)]
  obtain c1 where c1: "einsum_ntd m homo = Inr c1" "shape c1 = butlast (shape homo) @ [?d + 1]"
    by blast
  from homo have bl: "length (butlast (shape homo)) = ?d + 1" "butlast (shape homo) ! 0 = ?n"
    by (simp_all add: nth_butlast)
  from bl c1(2) have c1s: "2 \<le> length (shape c1)" "shape c1 ! 0 = ?n" "last (shape c1) = ?d + 1"
    by (simp_all add: nth_append)
  from einsum_ntd_succeeds[OF w(3) c1s]
  obtain c2 where c2: "einsum_ntd (phy2torch (moving_images reg)) c1 = Inr c2"
    "shape c2 = butlast (shape c1) @ [?d + 1]"
    by blast
  from c2(2) c1(2) bl have gs: "length (shape (drop_last_coord c2)) = ?d + 2"
    "shape (drop_last_coord c2) ! 0 = shape (arrays (moving_images reg)) ! 0"
    "last (shape (drop_last_coord c2)) = ?d"
    by (simp_all add: drop_last_coord_def nth_append w(5))
  from grid_sample_succeeds[OF w(4) w(6) gs]
  obtain moved where mv: "grid_sample (arrays (moving_images reg)) (drop_last_coord c2) = Inr moved"
    by blast
  from convergence_check_succeeds[of "tolerance_mode reg" "prev_loss s"] nz
  obtain r where cc: "convergence_check (tolerance_mode reg) (tolerance reg)
      (max_tolerance_iters reg) (prev_loss s) (loss_fn reg moved fd) (tol_ctr s) = Inr r"
    by blast
  obtain ctr brk where r: "r = (ctr, brk)" by (cases r)
  show ?thesis
    unfolding iteration_def eqs Let_def bind_err_def
    by (simp add: m(1) c1(1) c2(1) mv cc r)
qed

lemma iteration_prev_loss:
  assumes "iteration e fd homo s = Inr (s', b)"
  shows "prev_loss s' = prev_loss s \<or> (\<exists>moved. prev_loss s' = loss_fn (self s) moved fd)"
  by (rule iteration_Inr[OF assms]) auto

lemma iterate_succeeds:
  assumes ws: "well_shaped e reg"
    and homo: "length (shape homo) = dims reg + 2" "shape homo ! 0 = batch_count (fixed_images reg)"
      "last (shape homo) = dims reg + 1"
    and loss: "tolerance_mode reg = ''rtol'' \<longrightarrow> (\<forall>a b. loss_fn reg a b \<noteq> Fin 0)"
  shows "same_configuration reg (self s) \<Longrightarrow> (tolerance_mode reg = ''rtol'' \<longrightarrow> prev_loss s \<noteq> Fin 0)
    \<Longrightarrow> \<exists>s'. iterate e fd homo k s = Inr s'"
proof (induction k arbitrary: s)
  case 0
  then show ?case by simp
next
  case (Suc k)
  from iteration_succeeds[OF ws Suc.prems(1) homo Suc.prems(2)]
  obtain s1 b where it: "iteration e fd homo s = Inr (s1, b)" by fastforce
  from iteration_frame[OF it Suc.prems(1)] have cfg: "same_configuration reg (self s1)" by simp
  from Suc.prems(1) have "loss_fn (self s) = loss_fn reg"
    by (simp add: same_configuration_def)
  with iteration_prev_loss[OF it] Suc.prems(2) loss
  have "tolerance_mode reg = ''rtol'' \<longrightarrow> prev_loss s1 \<noteq> Fin 0"
    by auto
  from Suc.IH[OF cfg this] it show ?case
    by (auto simp: bind_err_def)
qed

lemma homogenize_shape:
  assumes "2 \<le> length (shape c)"
  shows "\<exists>h. homogenize c = Inr h \<and> length (shape h) = length (shape c)
    \<and> shape h ! 0 = shape c ! 0 \<and> last (shape h) = last (shape c) + 1"
proof -
  from assms obtain xs x where s: "shape c = xs @ [x]"
    by (metis list.size(3) not_numeral_le_zero rev_exhaust)
  with assms have "xs \<noteq> []" by auto
  with s show ?thesis
    by (simp add: homogenize_def cat2_def bind_err_def ones_def nth_append)
qed


lemma size_down_succeeds:
  assumes "scale \<noteq> 0"
  shows "\<exists>sz. size_down m scale fs = Inr sz \<and> length sz = length fs \<and> list_all (\<lambda>t. m \<le> t) sz"
  using assms by (simp add: size_down_def list_all_iff)

lemma interpolate_succeeds:
  assumes "3 \<le> length (shape inp)" "length sz = length (shape inp) - 2" "list_all (\<lambda>t. 0 < t) sz"
  shows "\<exists>fd. interpolate vals inp sz mode = Inr fd \<and> shape fd = take 2 (shape inp) @ map nat sz"
  using assms by (auto simp: interpolate_def list_all_iff list_ex_iff)

lemma affine_grid_succeeds:
  assumes "length sz = d + 2" "d = 2 \<or> d = 3" "sz ! 0 = n"
  shows "\<exists>g. affine_grid (eye_batch n d) sz = Inr g \<and> shape g = n # drop 2 sz @ [d]"
  using assms by (auto simp: affine_grid_def eye_batch_def Let_def)

lemma run_scale_succeeds:
  assumes ws: "well_shaped e reg" and cfg: "same_configuration reg (self s)"
    and sc: "scale \<noteq> 0"
    and loss: "tolerance_mode reg = ''rtol'' \<longrightarrow> (\<forall>a b. loss_fn reg a b \<noteq> Fin 0)"
    and mv: "save \<longrightarrow> moved_image s \<noteq> None \<or> 0 < iters"
  shows "\<exists>s'. run_scale e save (scale, iters) s = Inr s'"
proof -
  let ?n = "batch_count (fixed_images reg)" and ?d = "dims reg"
  let ?arr = "arrays (fixed_images reg)"
  let ?s0 = "s\<lparr>tol_ctr := 0, prev_loss := PInf, iter_logs := []\<rparr>"
  note eqs = same_configurationD[OF cfg]
  from ws have w: "length (shape ?arr) = ?d + 2" "shape ?arr ! 0 = ?n" "?d = 2 \<or> ?d = 3"
    "0 < min_img_size e" "shape (torch2phy (fixed_images reg)) = [?n, ?d + 1, ?d + 1]"
    by (simp_all add: well_shaped_def Let_def)
  from size_down_succeeds[OF sc] obtain sz where
    sz: "size_down (min_img_size e) scale (drop 2 (shape ?arr)) = Inr sz"
    "length sz = length (drop 2 (shape ?arr))" "list_all (\<lambda>t. min_img_size e \<le> t) sz"
    by blast
  from sz(3) w(4) have pos: "list_all (\<lambda>t. 0 < t) sz"
    by (auto simp: list_all_iff)
  from w(1) sz(2) have l: "3 \<le> length (shape ?arr)" "length sz = length (shape ?arr) - 2"
    using w(3) by auto
  from interpolate_succeeds[OF l pos] obtain fd where
    fd: "interpolate (interp_values e) ?arr sz (interpolate_mode (fixed_images reg)) = Inr fd"
    "shape fd = take 2 (shape ?arr) @ map nat sz"
    by blast
  from fd(2) w(1) l(2) have fds: "length (shape fd) = ?d + 2" "shape fd ! 0 = ?n"
    using w(2) by (simp_all add: nth_append)
  from affine_grid_succeeds[OF fds(1) w(3) fds(2)] obtain grid where
    grid: "affine_grid (eye_batch ?n ?d) (shape fd) = Inr grid"
    "shape grid = ?n # drop 2 (shape fd) @ [?d]"
    by blast
  from grid(2) fds(1) have gs: "2 \<le> length (shape grid)" "length (shape grid) = ?d + 2"
    "shape grid ! 0 = ?n" "last (shape grid) = ?d"
    by simp_all
  from homogenize_shape[OF gs(1)] gs obtain homo0 where
    h0: "homogenize grid = Inr homo0" "length (shape homo0) = ?d + 2" "shape homo0 ! 0 = ?n"
    "last (shape homo0) = ?d + 1"
    by auto
  from h0(2) have h02: "2 \<le> length (shape homo0)" by simp
  from einsum_ntd_succeeds[OF w(5) h02 h0(3,4)] obtain homo where
    h: "einsum_ntd (torch2phy (fixed_images reg)) homo0 = Inr homo"
    "shape homo = butlast (shape homo0) @ [?d + 1]"
    by blast
  from h(2) h0(2,3) have hs: "length (shape homo) = ?d + 2" "shape homo ! 0 = ?n"
    "last (shape homo) = ?d + 1"
    by (simp_all add: nth_append nth_butlast)
  have "\<exists>s'. iterate e fd homo (nat iters) ?s0 = Inr s'"
    by (rule iterate_succeeds[OF ws hs loss]) (use cfg in simp_all)
  then obtain st1 where it: "iterate e fd homo (nat iters) ?s0 = Inr st1" by blast
  from iterate_moved[OF it] mv have "save \<longrightarrow> moved_image st1 \<noteq> None"
    by auto
  then show ?thesis
    unfolding run_scale_def Let_def bind_err_def eqs
    by (auto simp: sz(1) fd(1) grid(1) h0(1) h(1) it)
qed

lemma run_scales_succeeds:
  assumes ws: "well_shaped e reg"
    and loss: "tolerance_mode reg = ''rtol'' \<longrightarrow> (\<forall>a b. loss_fn reg a b \<noteq> Fin 0)"
  shows "same_configuration reg (self s) \<Longrightarrow> list_all (\<lambda>si. fst si \<noteq> 0) sis \<Longrightarrow>
    (save \<longrightarrow> sis = [] \<or> moved_image s \<noteq> None \<or> 0 < snd (hd sis)) \<Longrightarrow>
    \<exists>s'. run_scales e save sis s = Inr s'"
proof (induction sis arbitrary: s)
  case Nil
  then show ?case by simp
next
  case (Cons si sis)
  obtain scale iters where si: "si = (scale, iters)" by (cases si)
  from Cons.prems(2,3) si have sc: "scale \<noteq> 0" and mv: "save \<longrightarrow> moved_image s \<noteq> None \<or> 0 < iters"
    by simp_all
  from run_scale_succeeds[OF ws Cons.prems(1) sc loss mv]
  obtain s1 where rs: "run_scale e save (scale, iters) s = Inr s1" by blast
  from run_scale_frame[OF rs Cons.prems(1)] have cfg: "same_configuration reg (self s1)" by simp
  from run_scale_Inr[OF rs] have "save \<longrightarrow> moved_image s1 \<noteq> None" by auto
  then have "save \<longrightarrow> sis = [] \<or> moved_image s1 \<noteq> None \<or> 0 < snd (hd sis)" by simp
  from Cons.IH[OF cfg _ this] Cons.prems(2) rs si show ?case
    by (simp add: bind_err_def)
qed

lemma optimize_succeeds:
  assumes "well_shaped e reg"
    and "tolerance_mode reg = ''rtol'' \<longrightarrow> (\<forall>a b. loss_fn reg a b \<noteq> Fin 0)"
    and "save \<longrightarrow> scales reg = [] \<or> iterations reg = [] \<or> 0 < hd (iterations reg)"
  shows "\<exists>ret st. optimize e reg save = Inr (ret, st)"
proof -
  from assms(1) have "list_all (\<lambda>s. s \<noteq> 0) (scales reg)"
    by (simp add: well_shaped_def Let_def)
  then have nz: "list_all (\<lambda>si. fst si \<noteq> 0) (zip (scales reg) (iterations reg))"
    by (auto simp: list_all_iff dest: set_zip_leftD)
  have hd: "save \<longrightarrow> zip (scales reg) (iterations reg) = []
      \<or> moved_image (initial_state reg) \<noteq> None
      \<or> 0 < snd (hd (zip (scales reg) (iterations reg)))"
    using assms(3) by (cases "scales reg"; cases "iterations reg") auto
  from run_scales_succeeds[OF assms(1,2) _ nz hd]
  obtain st where "run_scales e save (zip (scales reg) (iterations reg)) (initial_state reg) = Inr st"
    by (auto simp: initial_state_def same_configuration_refl)
  then show ?thesis
    by (simp add: optimize_def bind_err_def)
qed


text \<open>
  C2, as amended. A run of \<^verbatim>\<open>optimize\<close> on a well-shaped registration returns (it
  raises nothing) when no loss value is 0 in \<^verbatim>\<open>rtol\<close> mode and, with
  \<^verbatim>\<open>save_transformed\<close>, the first scale has a positive iteration budget. Whenever it
  returns, the schedule is exhausted (one scale log per pair of the schedule) and the
  value returned is the list of moved images, one per scale, with \<^verbatim>\<open>save_transformed\<close>
  and \<^verbatim>\<open>None\<close> without. The affine matrix is not returned: it stays in the
  registration object, which the run changes in the parameter and the optimizer state
  only.
\<close>

theorem optimize_returns:
  "(well_shaped e reg
      \<and> (tolerance_mode reg = ''rtol'' \<longrightarrow> (\<forall>a b. loss_fn reg a b \<noteq> Fin 0))
      \<and> (save_transformed \<longrightarrow> scales reg = [] \<or> iterations reg = [] \<or> 0 < hd (iterations reg))
     \<longrightarrow> (\<exists>ret st. optimize e reg save_transformed = Inr (ret, st)))
   \<and> (\<forall>ret st. optimize e reg save_transformed = Inr (ret, st) \<longrightarrow>
        ret = (if save_transformed then PyList (transformed_images st) else PyNone)
        \<and> (save_transformed \<longrightarrow>
              length (transformed_images st) = length (zip (scales reg) (iterations reg)))
        \<and> length (scale_logs st) = length (zip (scales reg) (iterations reg))
        \<and> same_configuration reg (self st))"
proof (intro conjI impI allI)
  assume "well_shaped e reg
      \<and> (tolerance_mode reg = ''rtol'' \<longrightarrow> (\<forall>a b. loss_fn reg a b \<noteq> Fin 0))
      \<and> (save_transformed \<longrightarrow> scales reg = [] \<or> iterations reg = [] \<or> 0 < hd (iterations reg))"
  then show "\<exists>ret st. optimize e reg save_transformed = Inr (ret, st)"
    using optimize_succeeds[of e reg save_transformed] by blast
next
  fix ret st
  assume run: "optimize e reg save_transformed = Inr (ret, st)"
  note parts = optimize_Inr[OF run]
  have all: "same_configuration reg (self st)
    \<and> (\<exists>sls. scale_logs st = scale_logs (initial_state reg) @ sls
          \<and> list_all2 (\<lambda>si sl. True) (zip (scales reg) (iterations reg)) sls)
    \<and> length (transformed_images st) = length (transformed_images (initial_state reg))
        + (if save_transformed then length (zip (scales reg) (iterations reg)) else 0)"
    by (rule run_scales_logs[OF _ parts(1)]) (simp_all add: initial_state_def same_configuration_refl)
  from parts(2) show "ret = (if save_transformed then PyList (transformed_images st) else PyNone)" .
  from all show "length (scale_logs st) = length (zip (scales reg) (iterations reg))"
    by (auto simp: initial_state_def dest: list_all2_lengthD)
  from all show "same_configuration reg (self st)" by simp
  assume save_transformed
  with all show "length (transformed_images st) = length (zip (scales reg) (iterations reg))"
    by (simp add: initial_state_def)
qed

theorem optimize_returns_witness:
  "well_shaped example_env (example_reg (\<lambda>moved fixed. Fin 1) ''atol'')
   \<and> (\<exists>ret st. optimize example_env (example_reg (\<lambda>moved fixed. Fin 1) ''atol'') True = Inr (ret, st))
   \<and> fst (projr (example_run True)) = PyList (transformed_images (snd (projr (example_run True))))
   \<and> length (transformed_images (snd (projr (example_run True)))) = 2
   \<and> fst (projr (example_run False)) = PyNone"
proof -
  have ws: "well_shaped example_env (example_reg (\<lambda>moved fixed. Fin 1) ''atol'')"
    by (simp add: well_shaped_def example_env_def example_reg_def example_images_def square_eye_def
        eye_batch_def homogeneous_row_def)
  have cfg: "tolerance_mode (example_reg (\<lambda>moved fixed. Fin 1) ''atol'') = ''atol''"
    "iterations (example_reg (\<lambda>moved fixed. Fin 1) ''atol'') = [5, 2]"
    "scales (example_reg (\<lambda>moved fixed. Fin 1) ''atol'') = [4, 1]"
    by (simp_all add: example_reg_def)
  from optimize_returns[of example_env "example_reg (\<lambda>moved fixed. Fin 1) ''atol''" True] ws
  have ex: "\<exists>ret st. optimize example_env (example_reg (\<lambda>moved fixed. Fin 1) ''atol'') True = Inr (ret, st)"
    by (simp add: cfg)
  from optimize_returns[of example_env "example_reg (\<lambda>moved fixed. Fin 1) ''atol''" True,
      THEN conjunct2, rule_format, OF example_run_Inr[of True]]
  have t: "fst (projr (example_run True)) = PyList (transformed_images (snd (projr (example_run True))))"
    "length (transformed_images (snd (projr (example_run True)))) = 2"
    by (simp_all add: cfg)
  from optimize_returns[of example_env "example_reg (\<lambda>moved fixed. Fin 1) ''atol''" False,
      THEN conjunct2, rule_format, OF example_run_Inr[of False]]
  have f: "fst (projr (example_run False)) = PyNone"
    by simp
  from ws ex t f show ?thesis by simp
qed

text \<open>
  The claim as stated fails on the example run: without \<^verbatim>\<open>save_transformed\<close> the value
  returned is \<^verbatim>\<open>None\<close>, not the final affine matrix.
\<close>

theorem optimize_returns_counterexample:
  "map_sum id fst (example_run False) = Inr PyNone"
  by (simp add: example_run_def run_defs numeral_nat split: prod.splits)

end
